theory Spec2Isabelle
  imports Complex_Main
begin

section \<open>The SAEM iteration engine of saem.cpp\<close>

text \<open>
  The definitions below are translated from \<^verbatim>\<open>src/saem.cpp\<close>. A C++ \<^verbatim>\<open>double\<close> is
  modelled by a real number, so arithmetic is exact; rounding and overflow are outside the
  model. The one place where the code itself tests for a non-number (the store of
  \<^verbatim>\<open>sigma2[b]\<close>) is modelled over a separate type with the special values written out.
  Exceptions raised by Armadillo (size mismatch, index out of bounds) and by
  \<^verbatim>\<open>Rcpp::stop\<close> are values of the type \<open>error\<close>.
\<close>

datatype error = SizeMismatch | IndexOutOfBounds | NaNInData

subsection \<open>Armadillo matrices and vectors\<close>

text \<open>
  An Armadillo \<^verbatim>\<open>mat\<close> holds its dimensions and its elements in column-major order;
  element \<open>(r, c)\<close> is stored at the linear index \<open>r + c * n_rows\<close>.
\<close>

record mat =
  n_rows :: nat
  n_cols :: nat
  mem :: "real list"

definition wf_mat :: "mat \<Rightarrow> bool" where
  "wf_mat A = (length (mem A) = n_rows A * n_cols A)"

definition same_size :: "mat \<Rightarrow> mat \<Rightarrow> bool" where
  "same_size A B = (n_rows A = n_rows B \<and> n_cols A = n_cols B)"



text \<open>\<^verbatim>\<open>s * A\<close> and \<^verbatim>\<open>A / s\<close> for a scalar \<open>s\<close>.\<close>

definition scalar_times :: "real \<Rightarrow> mat \<Rightarrow> mat" where
  "scalar_times s A = A\<lparr>mem := map (\<lambda>x. s * x) (mem A)\<rparr>"


text \<open>Sequencing of computations that may raise: the first exception wins.\<close>

definition bind_err :: "error + 'a \<Rightarrow> ('a \<Rightarrow> error + 'b) \<Rightarrow> error + 'b" where
  "bind_err m f = (case m of Inl e \<Rightarrow> Inl e | Inr x \<Rightarrow> f x)"


subsection \<open>Stochastic approximation of the sufficient statistics\<close>






subsection \<open>Machine integers\<close>

text \<open>
  The iteration counter \<^verbatim>\<open>kiter\<close> is an \<^verbatim>\<open>unsigned int\<close>; the burn-in counts are
  \<^verbatim>\<open>int\<close>s and every comparison casts them: \<^verbatim>\<open>kiter > (unsigned int)(nb_fixResid)\<close>.
  The cast of a 32-bit \<^verbatim>\<open>int\<close> wraps a negative count around.
\<close>

definition as_uint :: "int \<Rightarrow> nat" where
  "as_uint i = nat (i mod 2 ^ 32)"

subsection \<open>Process-wide variables and external functions\<close>

text \<open>The eight objective functions \<^verbatim>\<open>_saemFn\<close> can point to.\<close>

datatype objfn = Obj | ObjC | ObjD | ObjE | ObjF | ObjG | ObjH | ObjI

text \<open>
  The globals \<^verbatim>\<open>_saemYptr\<close>, \<^verbatim>\<open>_saemFptr\<close>, ... of the file, which the objective
  functions and \<^verbatim>\<open>_saemOpt\<close> read.
\<close>

record saem_globals =
  saemYptr :: "real list"
  saemFptr :: "real list"
  saemLen :: nat
  saemYj :: int
  saemAddProp :: int
  saemLambda :: real
  saemLow :: real
  saemHi :: real
  saemFn :: objfn
  saemStart :: "real list"
  saemStep :: "real list"
  saemLambdaR :: real
  saemPowR :: real
  saemPropT :: int
  saemFixedIdx :: "int list"
  saemFixedValue :: "real list"
  saemItmax :: int
  saemTol :: real
  saemType :: int

text \<open>
  Functions the file calls and does not define: the transform \<^verbatim>\<open>_powerD\<close> and its
  inverse \<^verbatim>\<open>_powerDi\<close> (arguments \<open>x\<close>, \<open>lambda\<close>, \<open>yj\<close>, \<open>low\<close>, \<open>hi\<close>),
  the test whether \<^verbatim>\<open>_powerD\<close> returns a NaN, the C library's \<^verbatim>\<open>pow\<close>, and the three
  minimizers. A minimizer sees the globals and the dimension \<open>n\<close> and returns the
  coordinates it writes to \<^verbatim>\<open>pxmin\<close>; \<^verbatim>\<open>newuoa\<close> returns nothing when its value is
  \<^verbatim>\<open>NA\<close>. They are parameters of the model: every property below holds for all of them.
\<close>

type_synonym transform = "real \<Rightarrow> real \<Rightarrow> int \<Rightarrow> real \<Rightarrow> real \<Rightarrow> real"

record externals =
  powerD :: transform
  powerDi :: transform
  powerD_isnan :: "real \<Rightarrow> real \<Rightarrow> int \<Rightarrow> real \<Rightarrow> real \<Rightarrow> bool"
  c_pow :: "real \<Rightarrow> real \<Rightarrow> real"
  optimize1 :: "saem_globals \<Rightarrow> real"
  nelder_fn :: "saem_globals \<Rightarrow> nat \<Rightarrow> nat \<Rightarrow> real"
  newuoa :: "saem_globals \<Rightarrow> nat \<Rightarrow> (nat \<Rightarrow> real) option"

text \<open>The macros \<^verbatim>\<open>toLambda\<close>, \<^verbatim>\<open>toLambdaEst\<close>, \<^verbatim>\<open>toPow\<close> and \<^verbatim>\<open>toPowEst\<close>.\<close>

definition toLambda :: "externals \<Rightarrow> saem_globals \<Rightarrow> real \<Rightarrow> real" where
  "toLambda ext g x = powerDi ext x 1 4 (- saemLambdaR g) (saemLambdaR g)"

definition toLambdaEst :: "externals \<Rightarrow> saem_globals \<Rightarrow> real \<Rightarrow> real" where
  "toLambdaEst ext g x =
     powerD ext (if x < - (99 / 100) * saemLambdaR g then - (99 / 100) * saemLambdaR g
                 else if x > (99 / 100) * saemLambdaR g then (99 / 100) * saemLambdaR g
                 else x)
       1 4 (- saemLambdaR g) (saemLambdaR g)"

definition toPow :: "externals \<Rightarrow> saem_globals \<Rightarrow> real \<Rightarrow> real" where
  "toPow ext g x = powerDi ext x 1 4 (- saemPowR g) (saemPowR g)"

definition toPowEst :: "externals \<Rightarrow> saem_globals \<Rightarrow> real \<Rightarrow> real" where
  "toPowEst ext g x =
     powerD ext (if x < - (99 / 100) * saemPowR g then - (99 / 100) * saemPowR g
                 else if x > (99 / 100) * saemPowR g then (99 / 100) * saemPowR g
                 else x)
       1 4 (- saemPowR g) (saemPowR g)"

subsection \<open>The minimizer adapter\<close>

text \<open>
  \<^verbatim>\<open>_saemOpt(n, pxmin)\<close>. The buffer \<^verbatim>\<open>pxmin\<close> is a map from indices to values; a
  minimizer overwrites its first \<open>n\<close> entries. Nothing is written for \<open>n = 0\<close>, nor
  for \<open>n > 1\<close> when \<^verbatim>\<open>_saemType\<close> is neither 1 nor 2. When \<^verbatim>\<open>newuoa\<close> fails the
  Nelder-Mead minimizer runs instead.
\<close>

definition saemOpt :: "externals \<Rightarrow> saem_globals \<Rightarrow> nat \<Rightarrow> (nat \<Rightarrow> real) \<Rightarrow> nat \<Rightarrow> real" where
  "saemOpt ext g n pxmin =
     (if n = 0 then pxmin
      else if n = 1 then pxmin(0 := optimize1 ext g)
      else if saemType g = 1 then (\<lambda>i. if i < n then nelder_fn ext g n i else pxmin i)
      else if saemType g = 2 then
        (case newuoa ext g n of
           None \<Rightarrow> (\<lambda>i. if i < n then nelder_fn ext g n i else pxmin i)
         | Some x \<Rightarrow> (\<lambda>i. if i < n then x i else pxmin i))
      else pxmin)"

subsection \<open>The residual-model fit of one endpoint\<close>

text \<open>
  The residual parameters \<^verbatim>\<open>ares(b)\<close>, \<^verbatim>\<open>bres(b)\<close>, \<^verbatim>\<open>cres(b)\<close>, \<^verbatim>\<open>lres(b)\<close> of
  the endpoint \<open>b\<close>, and the data of the endpoint that the fit copies into the globals.
\<close>

record resid_par =
  ares :: real
  bres :: real
  cres :: real
  lres :: real

record endpoint =
  ysb :: "real list"
  fsb :: "real list"
  yj_b :: int
  propT_b :: int
  addProp_b :: int
  lambda_b :: real
  low_b :: real
  hi_b :: real

text \<open>
  Every case of the \<^verbatim>\<open>switch (res_mod(b))\<close> that calls the minimizer is built from the
  same blocks, one per parameter of the variant; a \<open>slot\<close> names the parameter a block
  is about. A scale parameter goes to the minimizer as \<^verbatim>\<open>sqrt(fabs(x))\<close> and comes back
  squared; the power and lambda parameters go through \<^verbatim>\<open>toPowEst\<close>/\<^verbatim>\<open>toPow\<close> and
  \<^verbatim>\<open>toLambdaEst\<close>/\<^verbatim>\<open>toLambda\<close>.
\<close>

datatype slot = SA | SB | SC | SL

fun slot_get :: "slot \<Rightarrow> resid_par \<Rightarrow> real" where
  "slot_get SA par = ares par"
| "slot_get SB par = bres par"
| "slot_get SC par = cres par"
| "slot_get SL par = lres par"

fun slot_put :: "slot \<Rightarrow> real \<Rightarrow> resid_par \<Rightarrow> resid_par" where
  "slot_put SA v par = par\<lparr>ares := v\<rparr>"
| "slot_put SB v par = par\<lparr>bres := v\<rparr>"
| "slot_put SC v par = par\<lparr>cres := v\<rparr>"
| "slot_put SL v par = par\<lparr>lres := v\<rparr>"

fun to_est :: "externals \<Rightarrow> saem_globals \<Rightarrow> slot \<Rightarrow> real \<Rightarrow> real" where
  "to_est ext g SA x = sqrt \<bar>x\<bar>"
| "to_est ext g SB x = sqrt \<bar>x\<bar>"
| "to_est ext g SC x = toPowEst ext g x"
| "to_est ext g SL x = toLambdaEst ext g x"

fun from_est :: "externals \<Rightarrow> saem_globals \<Rightarrow> slot \<Rightarrow> real \<Rightarrow> real" where
  "from_est ext g SA x = x * x"
| "from_est ext g SB x = x * x"
| "from_est ext g SC x = toPow ext g x"
| "from_est ext g SL x = toLambda ext g x"

text \<open>The local variables of a case while it prepares the call of the minimizer.\<close>

record fit_work =
  w_par :: resid_par
  w_start :: "real list"
  w_curi :: nat
  w_n :: nat
  w_fixedIdx :: "int list"
  w_fixedValue :: "real list"

text \<open>
  The block of the \<open>k\<close>-th parameter after the burn-in:
  \<^verbatim>\<open>if (resFixed[offsetR + k] == 1) { P(b) = resValue[offsetR + k]; _saemFixedIdx[k] = 1;
  _saemFixedValue[k] = est(P(b)); } else { start[curi++] = est(P(b)); n++; }\<close>
\<close>

definition setup_slot ::
  "externals \<Rightarrow> saem_globals \<Rightarrow> nat list \<Rightarrow> real list \<Rightarrow> nat \<Rightarrow> fit_work \<Rightarrow> nat \<times> slot \<Rightarrow> fit_work" where
  "setup_slot ext g resFixed resValue offsetR w ks =
     (if resFixed ! (offsetR + fst ks) = 1
      then (let par' = slot_put (snd ks) (resValue ! (offsetR + fst ks)) (w_par w)
            in w\<lparr>w_par := par',
                 w_fixedIdx := (w_fixedIdx w)[fst ks := 1],
                 w_fixedValue := (w_fixedValue w)
                   [fst ks := to_est ext g (snd ks) (slot_get (snd ks) par')]\<rparr>)
      else w\<lparr>w_start := (w_start w)[w_curi w := to_est ext g (snd ks) (slot_get (snd ks) (w_par w))],
             w_curi := Suc (w_curi w),
             w_n := Suc (w_n w)\<rparr>)"

text \<open>
  The block of the \<open>k\<close>-th parameter after the call, after the burn-in:
  \<^verbatim>\<open>if (resFixed[offsetR + k] == 0) { x = pxmin[curi++]; P(b) = P(b) + pas(kiter)*(back(x) -
  P(b)); }\<close>, on the pair of the parameters and \<^verbatim>\<open>curi\<close>.
\<close>

definition blend_slot ::
  "externals \<Rightarrow> saem_globals \<Rightarrow> nat list \<Rightarrow> nat \<Rightarrow> real \<Rightarrow> (nat \<Rightarrow> real) \<Rightarrow>
   resid_par \<times> nat \<Rightarrow> nat \<times> slot \<Rightarrow> resid_par \<times> nat" where
  "blend_slot ext g resFixed offsetR p pxmin pc ks =
     (if resFixed ! (offsetR + fst ks) = 0
      then (slot_put (snd ks)
              (slot_get (snd ks) (fst pc)
                 + p * (from_est ext g (snd ks) (pxmin (snd pc)) - slot_get (snd ks) (fst pc)))
              (fst pc),
            Suc (snd pc))
      else pc)"

text \<open>
  The \<^verbatim>\<open>else\<close> branch after the call, taken while \<^verbatim>\<open>kiter <= nb_fixResid\<close>: every
  parameter of the variant is blended, the \<open>k\<close>-th from \<^verbatim>\<open>pxmin[k]\<close>. The statements are
  those of the source, case by case; the case \<^verbatim>\<open>rmPow\<close> blends \<^verbatim>\<open>bres\<close> towards
  \<^verbatim>\<open>pxmin[0]*pxmin[1]\<close>.
\<close>

definition burnin_blend ::
  "externals \<Rightarrow> saem_globals \<Rightarrow> nat \<Rightarrow> real \<Rightarrow> (nat \<Rightarrow> real) \<Rightarrow> resid_par \<Rightarrow> resid_par" where
  "burnin_blend ext g res_mod p pxmin par =
     (if res_mod = 4 then
        par\<lparr>ares := ares par + p * (pxmin 0 * pxmin 0 - ares par),
            bres := bres par + p * (pxmin 1 * pxmin 1 - bres par)\<rparr>
      else if res_mod = 5 then
        par\<lparr>ares := ares par + p * (pxmin 0 * pxmin 0 - ares par),
            bres := bres par + p * (pxmin 1 * pxmin 1 - bres par),
            cres := cres par + p * (toPow ext g (pxmin 2) - cres par)\<rparr>
      else if res_mod = 3 then
        par\<lparr>bres := bres par + p * (pxmin 0 * pxmin 1 - bres par),
            cres := cres par + p * (toPow ext g (pxmin 1) - cres par)\<rparr>
      else if res_mod = 6 then
        par\<lparr>ares := ares par + p * (pxmin 0 * pxmin 0 - ares par),
            lres := lres par + p * (toLambda ext g (pxmin 1) - lres par)\<rparr>
      else if res_mod = 7 then
        par\<lparr>bres := bres par + p * (pxmin 0 * pxmin 0 - bres par),
            lres := lres par + p * (toLambda ext g (pxmin 1) - lres par)\<rparr>
      else if res_mod = 8 then
        par\<lparr>bres := bres par + p * (pxmin 0 * pxmin 0 - bres par),
            cres := cres par + p * (toPow ext g (pxmin 1) - cres par),
            lres := lres par + p * (toLambda ext g (pxmin 2) - lres par)\<rparr>
      else if res_mod = 9 then
        par\<lparr>ares := ares par + p * (pxmin 0 * pxmin 0 - ares par),
            bres := bres par + p * (pxmin 1 * pxmin 1 - bres par),
            lres := lres par + p * (toLambda ext g (pxmin 2) - lres par)\<rparr>
      else if res_mod = 10 then
        par\<lparr>ares := ares par + p * (pxmin 0 * pxmin 0 - ares par),
            bres := bres par + p * (pxmin 1 * pxmin 1 - bres par),
            cres := cres par + p * (toPow ext g (pxmin 2) - cres par),
            lres := lres par + p * (toLambda ext g (pxmin 3) - lres par)\<rparr>
      else par)"

text \<open>
  The parameters of each variant in the order of their blocks, which is the order of the
  entries \<^verbatim>\<open>resFixed[offsetR + k]\<close> and of \<^verbatim>\<open>vcsig2[offset + k]\<close>; and the objective
  function of each variant.
\<close>

definition slots_of :: "nat \<Rightarrow> slot list" where
  "slots_of res_mod =
     (if res_mod = 1 then [SA]
      else if res_mod = 2 then [SB]
      else if res_mod = 3 then [SB, SC]
      else if res_mod = 4 then [SA, SB]
      else if res_mod = 5 then [SA, SB, SC]
      else if res_mod = 6 then [SA, SL]
      else if res_mod = 7 then [SB, SL]
      else if res_mod = 8 then [SB, SC, SL]
      else if res_mod = 9 then [SA, SB, SL]
      else if res_mod = 10 then [SA, SB, SC, SL]
      else [])"

definition fn_of :: "nat \<Rightarrow> objfn" where
  "fn_of res_mod =
     (if res_mod = 4 then Obj
      else if res_mod = 5 then ObjC
      else if res_mod = 3 then ObjD
      else if res_mod = 6 then ObjE
      else if res_mod = 7 then ObjF
      else if res_mod = 8 then ObjG
      else if res_mod = 9 then ObjH
      else ObjI)"

text \<open>
  The preparation of a case that calls the minimizer: \<^verbatim>\<open>start\<close> holds the estimates of
  all parameters and \<open>n\<close> their number; after the burn-in the blocks run with \<open>n = 0\<close>
  and \<^verbatim>\<open>curi = 0\<close>. \<^verbatim>\<open>_saemFixedIdx\<close> was zeroed before the \<^verbatim>\<open>switch\<close>.
\<close>

definition fit_setup ::
  "externals \<Rightarrow> saem_globals \<Rightarrow> nat \<Rightarrow> int \<Rightarrow> nat list \<Rightarrow> real list \<Rightarrow> nat \<Rightarrow> nat \<Rightarrow>
   resid_par \<Rightarrow> fit_work" where
  "fit_setup ext g kiter nb_fixResid resFixed resValue offsetR res_mod par =
     (let w0 = \<lparr>w_par = par,
                w_start = map (\<lambda>s. to_est ext g s (slot_get s par)) (slots_of res_mod),
                w_curi = 0,
                w_n = length (slots_of res_mod),
                w_fixedIdx = [0, 0, 0, 0],
                w_fixedValue = saemFixedValue g\<rparr>
      in if kiter > as_uint nb_fixResid
         then foldl (setup_slot ext g resFixed resValue offsetR) (w0\<lparr>w_n := 0\<rparr>)
                (enumerate 0 (slots_of res_mod))
         else w0)"

text \<open>The globals as the case sets them before it calls \<^verbatim>\<open>_saemOpt\<close>.\<close>

definition fit_globals :: "saem_globals \<Rightarrow> endpoint \<Rightarrow> nat \<Rightarrow> fit_work \<Rightarrow> saem_globals" where
  "fit_globals g ep res_mod w =
     g\<lparr>saemYptr := ysb ep, saemFptr := fsb ep, saemLen := length (ysb ep),
       saemYj := yj_b ep, saemPropT := propT_b ep, saemAddProp := addProp_b ep,
       saemLambda := lambda_b ep, saemLow := low_b ep, saemHi := hi_b ep,
       saemFn := fn_of res_mod,
       saemStep := replicate (length (slots_of res_mod)) (- (2 / 10)),
       saemStart := w_start w,
       saemFixedIdx := w_fixedIdx w,
       saemFixedValue := w_fixedValue w\<rparr>"

text \<open>
  One pass of the loop over the endpoints (the \<^verbatim>\<open>switch\<close> of lines 1033 to 1646), for
  the endpoint with parameters \<open>par\<close>, variant \<open>res_mod\<close> and data \<open>ep\<close>. \<open>p\<close> is
  \<^verbatim>\<open>pas(kiter)\<close>, \<open>sig2\<close> the residual variance of line 1034 and \<open>xmin0\<close> the
  contents of the uninitialised buffer \<^verbatim>\<open>xmin\<close>. The result holds the new parameters,
  the globals and the value of \<^verbatim>\<open>sig2\<close> after the \<^verbatim>\<open>switch\<close>.
\<close>

definition fit_endpoint ::
  "externals \<Rightarrow> saem_globals \<Rightarrow> nat \<Rightarrow> int \<Rightarrow> nat list \<Rightarrow> real list \<Rightarrow> nat \<Rightarrow> real \<Rightarrow> real \<Rightarrow>
   (nat \<Rightarrow> real) \<Rightarrow> endpoint \<Rightarrow> nat \<Rightarrow> resid_par \<Rightarrow> resid_par \<times> saem_globals \<times> real" where
  "fit_endpoint ext g kiter nb_fixResid resFixed resValue offsetR p sig2 xmin0 ep res_mod par =
     (if res_mod = 1 then
        (if resFixed ! offsetR = 1 \<and> kiter > as_uint nb_fixResid
         then (par\<lparr>ares := resValue ! offsetR\<rparr>, g\<lparr>saemFixedIdx := [0, 0, 0, 0]\<rparr>, sig2)
         else (par\<lparr>ares := sqrt sig2\<rparr>, g\<lparr>saemFixedIdx := [0, 0, 0, 0]\<rparr>, sig2))
      else if res_mod = 2 then
        (if resFixed ! offsetR = 1 \<and> kiter > as_uint nb_fixResid
         then (par\<lparr>bres := resValue ! offsetR\<rparr>, g\<lparr>saemFixedIdx := [0, 0, 0, 0]\<rparr>, sig2)
         else (par\<lparr>bres := sqrt (if sig2 = 0 then 1 else sig2)\<rparr>,
               g\<lparr>saemFixedIdx := [0, 0, 0, 0]\<rparr>,
               if sig2 = 0 then 1 else sig2))
      else if 3 \<le> res_mod \<and> res_mod \<le> 10 then
        (let w = fit_setup ext g kiter nb_fixResid resFixed resValue offsetR res_mod par;
             g' = fit_globals g ep res_mod w;
             pxmin = saemOpt ext g' (w_n w) xmin0
         in (if kiter > as_uint nb_fixResid
             then fst (foldl (blend_slot ext g' resFixed offsetR p pxmin) (w_par w, 0)
                         (enumerate 0 (slots_of res_mod)))
             else burnin_blend ext g' res_mod p pxmin (w_par w),
             g', sig2))
      else (par, g\<lparr>saemFixedIdx := [0, 0, 0, 0]\<rparr>, sig2))"

subsection \<open>Sample inputs\<close>

text \<open>
  Concrete values at which the properties below are evaluated: transforms that return
  their argument, minimizers that return fixed points, and one endpoint with two
  observations.
\<close>

definition sample_ext :: externals where
  "sample_ext = \<lparr>powerD = (\<lambda>x lam yj lo hi. x), powerDi = (\<lambda>x lam yj lo hi. x),
     powerD_isnan = (\<lambda>x lam yj lo hi. False), c_pow = (\<lambda>x y. x powr y),
     optimize1 = (\<lambda>g. 3), nelder_fn = (\<lambda>g n i. if i = 0 then 2 else 3),
     newuoa = (\<lambda>g n. None)\<rparr>"

definition sample_globals :: saem_globals where
  "sample_globals = \<lparr>saemYptr = [], saemFptr = [], saemLen = 0, saemYj = 2, saemAddProp = 1,
     saemLambda = 1, saemLow = 0, saemHi = 1, saemFn = Obj, saemStart = [], saemStep = [],
     saemLambdaR = 3, saemPowR = 10, saemPropT = 0, saemFixedIdx = [0, 0, 0, 0],
     saemFixedValue = [0, 0, 0, 0], saemItmax = 100, saemTol = 1 / 10000, saemType = 1\<rparr>"

definition sample_endpoint :: endpoint where
  "sample_endpoint = \<lparr>ysb = [1, 2], fsb = [1, 3], yj_b = 2, propT_b = 0, addProp_b = 1,
     lambda_b = 1, low_b = 0, hi_b = 1\<rparr>"

subsection \<open>The residual variance \<^verbatim>\<open>sigma2[b]\<close>\<close>

text \<open>
  The store of \<^verbatim>\<open>sigma2[b]\<close> tests its value with \<^verbatim>\<open>std::isnan\<close>, so this part of
  the loop over the endpoints is modelled over doubles with their special values: a
  finite number \<open>Fin r\<close>, the two infinities and NaN. A comparison with a NaN is false.
\<close>

datatype dbl = Fin real | PInf | NInf | NaN

definition dbl_gt :: "dbl \<Rightarrow> real \<Rightarrow> bool" where
  "dbl_gt x c = (case x of Fin r \<Rightarrow> r > c | PInf \<Rightarrow> True | NInf \<Rightarrow> False | NaN \<Rightarrow> False)"

definition dbl_le :: "dbl \<Rightarrow> real \<Rightarrow> bool" where
  "dbl_le x c = (case x of Fin r \<Rightarrow> r \<le> c | PInf \<Rightarrow> False | NInf \<Rightarrow> True | NaN \<Rightarrow> False)"

definition dbl_isnan :: "dbl \<Rightarrow> bool" where
  "dbl_isnan x = (x = NaN)"

text \<open>
  The quotient of a double by an unsigned count, as in
  \<^verbatim>\<open>statrese[b]/(y_offset(b+1)-y_offset(b))\<close>: a count of zero gives an infinity, or NaN
  for \<open>0/0\<close>.
\<close>

definition dbl_div_count :: "dbl \<Rightarrow> nat \<Rightarrow> dbl" where
  "dbl_div_count x n =
     (case x of
        Fin r \<Rightarrow> (if n = 0 then (if r > 0 then PInf else if r < 0 then NInf else NaN)
                  else Fin (r / real n))
      | PInf \<Rightarrow> PInf
      | NInf \<Rightarrow> NInf
      | NaN \<Rightarrow> NaN)"

text \<open>
  What the loop body does to \<^verbatim>\<open>sig2\<close> and \<^verbatim>\<open>sigma2[b]\<close>: line 1034 computes
  \<^verbatim>\<open>sig2\<close>; the case \<^verbatim>\<open>rmProp\<close> replaces a zero by one unless the parameter is held
  fixed; lines 1647 to 1649 store it, replacing a value above \<^verbatim>\<open>1.0e99\<close> and then a NaN
  by \<^verbatim>\<open>1.0e99\<close>. \<open>nobs\<close> is the value of the unsigned difference
  \<^verbatim>\<open>y_offset(b+1)-y_offset(b)\<close>.
\<close>

definition sig2_of :: "dbl \<Rightarrow> nat \<Rightarrow> dbl" where
  "sig2_of statrese_b nobs = dbl_div_count statrese_b nobs"

definition sig2_after_switch :: "nat \<Rightarrow> nat \<Rightarrow> int \<Rightarrow> nat list \<Rightarrow> nat \<Rightarrow> dbl \<Rightarrow> dbl" where
  "sig2_after_switch kiter res_mod nb_fixResid resFixed offsetR sig2 =
     (if res_mod = 2 then
        (if resFixed ! offsetR = 1 \<and> kiter > as_uint nb_fixResid then sig2
         else if sig2 = Fin 0 then Fin 1 else sig2)
      else sig2)"

definition store_sigma2 :: "dbl \<Rightarrow> dbl" where
  "store_sigma2 sig2 =
     (let s1 = (if dbl_gt sig2 (10 ^ 99) then Fin (10 ^ 99) else sig2)
      in if dbl_isnan s1 then Fin (10 ^ 99) else s1)"

definition sigma2_end :: "nat \<Rightarrow> nat \<Rightarrow> int \<Rightarrow> nat list \<Rightarrow> nat \<Rightarrow> dbl \<Rightarrow> nat \<Rightarrow> dbl" where
  "sigma2_end kiter res_mod nb_fixResid resFixed offsetR statrese_b nobs =
     store_sigma2
       (sig2_after_switch kiter res_mod nb_fixResid resFixed offsetR (sig2_of statrese_b nobs))"

subsection \<open>The Metropolis-Hastings acceptance step\<close>

text \<open>
  The part of the chain state that \<^verbatim>\<open>do_mcmc\<close> updates on acceptance: the stacked
  random effects \<^verbatim>\<open>phiM\<close> (one row per subject and chain) and the vectors \<^verbatim>\<open>U_y\<close>
  and \<^verbatim>\<open>U_phi\<close> with one entry per row.
\<close>

record chain_state =
  phiM :: mat
  U_y :: "real list"
  U_phi :: "real list"

definition mat_at :: "mat \<Rightarrow> nat \<Rightarrow> nat \<Rightarrow> real" where
  "mat_at A r c = mem A ! (r + c * n_rows A)"

text \<open>\<^verbatim>\<open>a + b\<close> and \<^verbatim>\<open>a - b\<close> on vectors: an exception when the lengths differ.\<close>

definition vec_plus :: "real list \<Rightarrow> real list \<Rightarrow> error + real list" where
  "vec_plus a b = (if length a = length b then Inr (map2 (+) a b) else Inl SizeMismatch)"

definition vec_minus :: "real list \<Rightarrow> real list \<Rightarrow> error + real list" where
  "vec_minus a b = (if length a = length b then Inr (map2 (-) a b) else Inl SizeMismatch)"

text \<open>
  \<^verbatim>\<open>find(deltu < -log(randu<vec>(mx.nM)))\<close>, where \<open>u\<close> holds the uniform draws: the
  indices, in increasing order, of the rows whose log-ratio is below \<open>- log u\<close>.
\<close>

definition find_accept :: "real list \<Rightarrow> real list \<Rightarrow> error + nat list" where
  "find_accept deltu u =
     (if length deltu = length u
      then Inr (filter (\<lambda>r. deltu ! r < - ln (u ! r)) [0..<length deltu])
      else Inl SizeMismatch)"

text \<open>
  \<^verbatim>\<open>A(ind, cols) = B(ind, cols)\<close>: the elements in the rows \<open>ind\<close> and the columns
  \<open>cols\<close> are copied from \<open>B\<close>; an exception when an index is out of bounds.
\<close>

definition submat_assign :: "mat \<Rightarrow> nat list \<Rightarrow> nat list \<Rightarrow> mat \<Rightarrow> error + mat" where
  "submat_assign A ind cols B =
     (if list_all (\<lambda>r. r < n_rows A \<and> r < n_rows B) ind
         \<and> list_all (\<lambda>c. c < n_cols A \<and> c < n_cols B) cols
      then Inr (foldl (\<lambda>M c.
                  foldl (\<lambda>M r. M\<lparr>mem := (mem M)[r + c * n_rows M := mem B ! (r + c * n_rows B)]\<rparr>)
                    M ind)
                A cols)
      else Inl IndexOutOfBounds)"

text \<open>\<^verbatim>\<open>v(ind) = w(ind)\<close> on vectors.\<close>

definition elem_assign :: "real list \<Rightarrow> nat list \<Rightarrow> real list \<Rightarrow> error + real list" where
  "elem_assign v ind w =
     (if list_all (\<lambda>r. r < length v \<and> r < length w) ind
      then Inr (foldl (\<lambda>x r. x[r := w ! r]) v ind)
      else Inl IndexOutOfBounds)"

text \<open>
  Lines 1923 to 1938 of \<^verbatim>\<open>do_mcmc\<close>, for the kernel \<open>method\<close>, the target columns
  \<open>i\<close>, the uniform draws \<open>u\<close>, the proposal \<^verbatim>\<open>phiMc\<close> and its log-likelihood
  \<^verbatim>\<open>Uc_y\<close> and prior term \<^verbatim>\<open>Uc_phi\<close>.
\<close>

definition mh_accept ::
  "int \<Rightarrow> nat list \<Rightarrow> real list \<Rightarrow> mat \<Rightarrow> real list \<Rightarrow> real list \<Rightarrow> chain_state \<Rightarrow>
   error + chain_state" where
  "mh_accept method i u phiMc Uc_y Uc_phi st =
     bind_err
       (if method = 1 then vec_minus Uc_y (U_y st)
        else bind_err (vec_minus Uc_y (U_y st)) (\<lambda>d1.
             bind_err (vec_plus d1 Uc_phi) (\<lambda>d2. vec_minus d2 (U_phi st))))
       (\<lambda>deltu.
     bind_err (find_accept deltu u) (\<lambda>ind.
     bind_err (submat_assign (phiM st) ind i phiMc) (\<lambda>phiM'.
     bind_err (elem_assign (U_y st) ind Uc_y) (\<lambda>U_y'.
       if method > 1
       then bind_err (elem_assign (U_phi st) ind Uc_phi) (\<lambda>U_phi'.
              Inr \<lparr>phiM = phiM', U_y = U_y', U_phi = U_phi'\<rparr>)
       else Inr \<lparr>phiM = phiM', U_y = U_y', U_phi = U_phi st\<rparr>))))"

text \<open>
  The entry of row \<open>r\<close> of the log-ratio \<^verbatim>\<open>deltu\<close>: \<^verbatim>\<open>Uc_y - U_y\<close> for the first
  kernel, \<^verbatim>\<open>Uc_y - U_y + Uc_phi - U_phi\<close> for the others.
\<close>

definition deltu_row :: "int \<Rightarrow> real list \<Rightarrow> real list \<Rightarrow> chain_state \<Rightarrow> nat \<Rightarrow> real" where
  "deltu_row method Uc_y Uc_phi st r =
     (if method = 1 then Uc_y ! r - U_y st ! r
      else Uc_y ! r - U_y st ! r + Uc_phi ! r - U_phi st ! r)"

text \<open>A sample chain state with two rows, and a proposal for it.\<close>

definition sample_chain :: chain_state where
  "sample_chain = \<lparr>phiM = \<lparr>n_rows = 2, n_cols = 2, mem = [1, 2, 3, 4]\<rparr>,
     U_y = [5, 5], U_phi = [2, 1]\<rparr>"

definition sample_phiMc :: mat where
  "sample_phiMc = \<lparr>n_rows = 2, n_cols = 2, mem = [10, 20, 30, 40]\<rparr>"

subsection \<open>The update of the covariance matrices\<close>

text \<open>
  \<^verbatim>\<open>max(A, B)\<close> and \<^verbatim>\<open>A % B\<close>: the element-wise maximum and product, an exception when
  the sizes differ.
\<close>

definition mat_max :: "mat \<Rightarrow> mat \<Rightarrow> error + mat" where
  "mat_max A B =
     (if same_size A B then Inr (A\<lparr>mem := map2 max (mem A) (mem B)\<rparr>) else Inl SizeMismatch)"

definition schur :: "mat \<Rightarrow> mat \<Rightarrow> error + mat" where
  "schur A B =
     (if same_size A B then Inr (A\<lparr>mem := map2 (*) (mem A) (mem B)\<rparr>) else Inl SizeMismatch)"

text \<open>\<^verbatim>\<open>X.diag()\<close>: the main diagonal as a vector.\<close>

definition diagvec :: "mat \<Rightarrow> real list" where
  "diagvec A = map (\<lambda>j. mem A ! (j + j * n_rows A)) [0..<min (n_rows A) (n_cols A)]"

text \<open>
  \<^verbatim>\<open>diagmat(v)\<close> for a vector is the square matrix with \<open>v\<close> on its diagonal;
  \<^verbatim>\<open>diagmat(X)\<close> for a matrix keeps the diagonal of \<open>X\<close> and zeroes the rest. Armadillo
  takes a matrix with one row or one column for a vector.
\<close>

definition diagmat_vec :: "real list \<Rightarrow> mat" where
  "diagmat_vec v =
     \<lparr>n_rows = length v, n_cols = length v,
      mem = map (\<lambda>k. if k mod length v = k div length v then v ! (k mod length v) else 0)
              [0..<length v * length v]\<rparr>"

definition diagmat :: "mat \<Rightarrow> mat" where
  "diagmat A =
     (if n_rows A = 1 \<or> n_cols A = 1 then diagmat_vec (mem A)
      else A\<lparr>mem := map (\<lambda>k. if k mod n_rows A = k div n_rows A then mem A ! k else 0)
                      [0..<length (mem A)]\<rparr>)"

text \<open>\<^verbatim>\<open>v(idx)\<close> for a vector of indices, and \<^verbatim>\<open>find(a < b)\<close> on two vectors.\<close>

definition elem_select :: "real list \<Rightarrow> nat list \<Rightarrow> error + real list" where
  "elem_select v idx =
     (if list_all (\<lambda>i. i < length v) idx then Inr (map (\<lambda>i. v ! i) idx)
      else Inl IndexOutOfBounds)"

definition find_lt :: "real list \<Rightarrow> real list \<Rightarrow> error + nat list" where
  "find_lt a b =
     (if length a = length b then Inr (filter (\<lambda>j. a ! j < b ! j) [0..<length a])
      else Inl SizeMismatch)"

text \<open>
  The floor of the diagonal:
  \<^verbatim>\<open>Gmin = minv(idx); jDmin = find(G.diag() < Gmin);
  for (jm = 0; jm < jDmin.n_elem; jm++) G(jDmin(jm), jDmin(jm)) = Gmin(jDmin(jm));\<close>
\<close>

definition floor_diag :: "real list \<Rightarrow> nat list \<Rightarrow> mat \<Rightarrow> error + mat" where
  "floor_diag minv idx G =
     bind_err (elem_select minv idx) (\<lambda>Gmin.
     bind_err (find_lt (diagvec G) Gmin) (\<lambda>jDmin.
       Inr (foldl (\<lambda>M j. M\<lparr>mem := (mem M)[j + j * n_rows M := Gmin ! j]\<rparr>) G jDmin)))"

text \<open>The configuration the covariance update reads, and the state it updates.\<close>

record cov_cfg =
  nb_sa :: int
  coef_sa :: real
  covstruct1 :: mat
  minv :: "real list"
  i1 :: "nat list"
  i0 :: "nat list"
  Gamma2_phi1fixed :: int
  nb_fixOmega :: int
  Gamma2_phi1fixedIx :: "nat list"
  Gamma2_phi1fixedValues :: mat
  nb_correl :: int
  nphi0 :: int
  niter_phi0 :: int
  coef_phi0 :: real

record cov_state =
  Gamma2_phi1 :: mat
  Gamma2_phi0 :: mat
  dGamma2_phi0 :: "real list"

text \<open>
  Lines 997 to 1015, where \<open>G1\<close> is the matrix of line 996: the simulated-annealing
  maximum or \<open>G1\<close> itself, the structural mask, the floor of the diagonal, the fixed
  elements (by their linear indices) and the diagonal-only constraint, in this order.
\<close>

definition update_Gamma2_phi1 :: "cov_cfg \<Rightarrow> nat \<Rightarrow> mat \<Rightarrow> mat \<Rightarrow> error + mat" where
  "update_Gamma2_phi1 cfg kiter G1 Gamma2 =
     bind_err (if kiter \<le> as_uint (nb_sa cfg)
               then mat_max (scalar_times (coef_sa cfg) Gamma2) (diagmat G1)
               else Inr G1) (\<lambda>Ga.
     bind_err (schur Ga (covstruct1 cfg)) (\<lambda>Gb.
     bind_err (floor_diag (minv cfg) (i1 cfg) Gb) (\<lambda>Gc.
     bind_err (if Gamma2_phi1fixed cfg = 1 \<and> kiter > as_uint (nb_fixOmega cfg)
               then bind_err (elem_assign (mem Gc) (Gamma2_phi1fixedIx cfg)
                                (mem (Gamma2_phi1fixedValues cfg)))
                      (\<lambda>m. Inr (Gc\<lparr>mem := m\<rparr>))
               else Inr Gc) (\<lambda>Gd.
       Inr (if kiter \<le> as_uint (nb_correl cfg) then diagmat Gd else Gd)))))"

text \<open>
  Lines 1017 to 1031, where \<open>G0\<close> is the matrix of line 1020: within the estimation
  window the floored diagonal of \<open>G0\<close>, afterwards the previous diagonal times
  \<^verbatim>\<open>coef_phi0\<close>; the matrix is the diagonal matrix of that vector.
\<close>

definition update_Gamma2_phi0 ::
  "cov_cfg \<Rightarrow> nat \<Rightarrow> mat \<Rightarrow> mat \<times> real list \<Rightarrow> error + mat \<times> real list" where
  "update_Gamma2_phi0 cfg kiter G0 Gd =
     (if nphi0 cfg > 0 then
        bind_err (if kiter \<le> as_uint (niter_phi0 cfg)
                  then bind_err (floor_diag (minv cfg) (i0 cfg) G0) (\<lambda>G. Inr (diagvec G))
                  else Inr (map (\<lambda>x. x * coef_phi0 cfg) (snd Gd))) (\<lambda>d.
          Inr (diagmat_vec d, d))
      else Inr Gd)"

definition update_cov :: "cov_cfg \<Rightarrow> nat \<Rightarrow> mat \<Rightarrow> mat \<Rightarrow> cov_state \<Rightarrow> error + cov_state" where
  "update_cov cfg kiter G1 G0 st =
     bind_err (update_Gamma2_phi1 cfg kiter G1 (Gamma2_phi1 st)) (\<lambda>Ga.
     bind_err (update_Gamma2_phi0 cfg kiter G0 (Gamma2_phi0 st, dGamma2_phi0 st)) (\<lambda>Gd.
       Inr \<lparr>Gamma2_phi1 = Ga, Gamma2_phi0 = fst Gd, dGamma2_phi0 = snd Gd\<rparr>))"

text \<open>
  A sample configuration with one random effect whose variance is fixed at \<open>1/2\<close>,
  below its minimum \<open>1\<close>.
\<close>

definition sample_cov_cfg :: cov_cfg where
  "sample_cov_cfg = \<lparr>nb_sa = 0, coef_sa = 1,
     covstruct1 = \<lparr>n_rows = 1, n_cols = 1, mem = [1]\<rparr>,
     minv = [1], i1 = [0], i0 = [],
     Gamma2_phi1fixed = 1, nb_fixOmega = 0, Gamma2_phi1fixedIx = [0],
     Gamma2_phi1fixedValues = \<lparr>n_rows = 1, n_cols = 1, mem = [1 / 2]\<rparr>,
     nb_correl = 0, nphi0 = 0, niter_phi0 = 0, coef_phi0 = 1\<rparr>"

definition sample_cov :: cov_state where
  "sample_cov = \<lparr>Gamma2_phi1 = \<lparr>n_rows = 1, n_cols = 1, mem = [4]\<rparr>,
     Gamma2_phi0 = \<lparr>n_rows = 0, n_cols = 0, mem = []\<rparr>, dGamma2_phi0 = []\<rparr>"

subsection \<open>The residual-model objective functions\<close>

text \<open>The bounds \<^verbatim>\<open>xmin = 1.0e-200\<close> and \<^verbatim>\<open>xmax = 1e300\<close> of the file.\<close>

definition xmin :: real where
  "xmin = 1 / 10 ^ 200"

definition xmax :: real where
  "xmax = 10 ^ 300"

text \<open>
  \<^verbatim>\<open>handleF(powt, ft, f, trunc, adjustF)\<close>: the transformed or the raw prediction, a
  zero replaced by one when \<^verbatim>\<open>adjustF\<close> is set, truncated into \<open>[xmin, xmax]\<close> when
  \<^verbatim>\<open>trunc\<close> is set.
\<close>

definition handleF :: "int \<Rightarrow> real \<Rightarrow> real \<Rightarrow> bool \<Rightarrow> bool \<Rightarrow> real" where
  "handleF powt ft f trunc adjustF =
     (let fa = (if powt \<noteq> 0 then ft else f);
          fa1 = (if adjustF \<and> fa = 0 then 1 else fa)
      in if trunc then (if fa1 < xmin then xmin else if fa1 > xmax then xmax else fa1)
         else fa1)"















subsection \<open>What the objective functions compute\<close>










subsection \<open>The residual statistic of one chain\<close>

text \<open>
  The divisor of the proportional model in the loop of lines 901 to 916:
  \<^verbatim>\<open>fa = handleF(propT(b), ft, f_cur[i], true, true); if (fa <= double_xmin) fa = 1;\<close>
\<close>

definition prop_divisor :: "int \<Rightarrow> real \<Rightarrow> real \<Rightarrow> real" where
  "prop_divisor pT ft f = (let fa = handleF pT ft f True True in if fa \<le> xmin then 1 else fa)"

text \<open>
  The loop \<^verbatim>\<open>for (int i = y_cur.size(); i--;)\<close> that fills \<^verbatim>\<open>resid\<close>, from the last
  observation down: the transformed observation, the exception when it is a NaN, minus the
  transformed prediction, divided by the divisor for the proportional model
  (\<^verbatim>\<open>rmProp\<close>, 2). The first argument after the data counts the observations still to do.
\<close>

fun resid_loop ::
  "externals \<Rightarrow> nat \<Rightarrow> endpoint \<Rightarrow> real list \<Rightarrow> real list \<Rightarrow> nat \<Rightarrow> real list \<Rightarrow>
   error + real list" where
  "resid_loop ext res_mod ep y_cur f_cur 0 resid = Inr resid"
| "resid_loop ext res_mod ep y_cur f_cur (Suc i) resid =
     (if powerD_isnan ext (y_cur ! i) (lambda_b ep) (yj_b ep) (low_b ep) (hi_b ep)
      then Inl NaNInData
      else (let ft = powerD ext (f_cur ! i) (lambda_b ep) (yj_b ep) (low_b ep) (hi_b ep);
                r = powerD ext (y_cur ! i) (lambda_b ep) (yj_b ep) (low_b ep) (hi_b ep) - ft;
                r1 = (if res_mod = 2 then r / prop_divisor (propT_b ep) ft (f_cur ! i) else r)
            in resid_loop ext res_mod ep y_cur f_cur i (resid[i := r1])))"

text \<open>\<^verbatim>\<open>dot(a, b)\<close>.\<close>

definition dot :: "real list \<Rightarrow> real list \<Rightarrow> real" where
  "dot a b = sum_list (map2 (*) a b)"

text \<open>
  Lines 897 to 934 for one chain and one endpoint with observations \<^verbatim>\<open>y_cur\<close> and
  predictions \<^verbatim>\<open>f_cur\<close>: the value \<^verbatim>\<open>resk\<close> that is added to \<^verbatim>\<open>statr[b]\<close>. The
  sum of squares is taken for the variants up to \<^verbatim>\<open>rmProp\<close> only; the other variants
  contribute the constant one.
\<close>

definition resk_endpoint ::
  "externals \<Rightarrow> nat \<Rightarrow> endpoint \<Rightarrow> real list \<Rightarrow> real list \<Rightarrow> error + real" where
  "resk_endpoint ext res_mod ep y_cur f_cur =
     bind_err (resid_loop ext res_mod ep y_cur f_cur (length y_cur)
                 (replicate (length y_cur) 0)) (\<lambda>resid.
       Inr (if res_mod \<le> 2
            then (let resk = dot resid resid
                  in if resk > xmax then xmax else if resk < xmin then xmin else resk)
            else 1))"

text \<open>\<^verbatim>\<open>statr[b] = statr[b] + resk\<close>.\<close>

definition add_statr :: "real list \<Rightarrow> nat \<Rightarrow> real \<Rightarrow> real list" where
  "add_statr statr b resk = statr[b := statr ! b + resk]"




subsection \<open>The iteration loop and the exported entry point\<close>

text \<open>
  Control flow of the method \<^verbatim>\<open>SAEM::saem_fit\<close> (lines 748-1735) and of the exported
  function \<^verbatim>\<open>saem_fit\<close> (lines 2104-2135). The state of the \<^verbatim>\<open>SAEM\<close> object is a
  type parameter \<open>'s\<close>; the numerical parts of an iteration are parameters:

  \<^item> \<open>user_fn_init\<close>: the first evaluation of the structural model before the loop
    (lines 759-762);
  \<^item> \<open>prepare\<close>: the head of an iteration, lines 768-793 (\<^verbatim>\<open>inv_sympd\<close>,
    \<^verbatim>\<open>set_mcmcphi\<close>, the numbers of kernel sweeps), which runs before the distribution
    identifier is looked at;
  \<^item> \<open>likelihood\<close>: the assignment of \<^verbatim>\<open>DYF\<close> for the distributions 1, 2 and 3
    (lines 794-825);
  \<^item> \<open>remainder\<close>: the rest of the iteration, lines 831-1734.

  A C++ exception (\<^verbatim>\<open>Rcpp::stop\<close>, an Armadillo error) is \<open>Inl\<close>. The \<^verbatim>\<open>else\<close> branch
  of line 827 prints a message and executes \<^verbatim>\<open>return\<close> in a \<^verbatim>\<open>void\<close> method: the loop
  ends, the state is the one reached so far, and nothing is raised. The log keeps the
  message of line 828 only.
\<close>

datatype message = UnknownDistribution int

record 's iteration =
  user_fn_init :: "'s \<Rightarrow> error + 's"
  prepare :: "nat \<Rightarrow> 's \<Rightarrow> error + 's"
  likelihood :: "int \<Rightarrow> 's \<Rightarrow> 's"
  remainder :: "nat \<Rightarrow> 's \<Rightarrow> error + 's"

text \<open>
  \<^verbatim>\<open>for (unsigned int kiter=0; kiter<(unsigned int)(niter); kiter++)\<close>: the first
  numeric argument is the number of iterations still to run, the second is \<^verbatim>\<open>kiter\<close>.
\<close>

fun iterations ::
  "'s iteration \<Rightarrow> int \<Rightarrow> nat \<Rightarrow> nat \<Rightarrow> 's \<Rightarrow> error + ('s \<times> message list)" where
  "iterations it distribution 0 kiter s = Inr (s, [])"
| "iterations it distribution (Suc r) kiter s =
     bind_err (prepare it kiter s) (\<lambda>s1.
       if distribution = 1 \<or> distribution = 2 \<or> distribution = 3 then
         bind_err (remainder it kiter (likelihood it distribution s1))
           (\<lambda>s2. iterations it distribution r (Suc kiter) s2)
       else Inr (s1, [UnknownDistribution distribution]))"

definition SAEM_saem_fit ::
  "'s iteration \<Rightarrow> int \<Rightarrow> int \<Rightarrow> 's \<Rightarrow> error + ('s \<times> message list)" where
  "SAEM_saem_fit it distribution niter s =
     bind_err (user_fn_init it s)
       (\<lambda>s0. iterations it distribution (as_uint niter) 0 s0)"

text \<open>
  The exported function: \<^verbatim>\<open>setupRx\<close> may raise (lines 2075, 2085), \<^verbatim>\<open>inits\<close> has
  produced the state \<open>s\<close>, the method runs, and the output list is built from the
  getters of the object (\<open>out\<close>) whenever the method returned.
\<close>

definition saem_fit ::
  "'s iteration \<Rightarrow> error option \<Rightarrow> ('s \<Rightarrow> 'o) \<Rightarrow> int \<Rightarrow> int \<Rightarrow> 's
     \<Rightarrow> error + ('o \<times> message list)" where
  "saem_fit it setupRx out distribution niter s =
     (case setupRx of
        Some e \<Rightarrow> Inl e
      | None \<Rightarrow>
          bind_err (SAEM_saem_fit it distribution niter s)
            (\<lambda>r. Inr (out (fst r), snd r)))"

text \<open>
  A sample run: the state counts what was executed (1 for the first model evaluation,
  10 for the head of an iteration, 100 for the likelihood, 1000 for the rest of an
  iteration).
\<close>

definition sample_iteration :: "nat iteration" where
  "sample_iteration =
     \<lparr>user_fn_init = (\<lambda>s. Inr (s + 1)),
      prepare = (\<lambda>kiter s. Inr (s + 10)),
      likelihood = (\<lambda>d s. s + 100),
      remainder = (\<lambda>kiter s. Inr (s + 1000))\<rparr>"

section \<open>Properties\<close>

subsection \<open>Lists and matrices\<close>



subsection \<open>The Robbins-Monro recursion of the statistics\<close>








subsection \<open>Fixed residual parameters\<close>

lemma as_uint_lt: "0 \<le> nb \<Longrightarrow> nb < int kiter \<Longrightarrow> as_uint nb < kiter"
proof -
  assume a: "0 \<le> nb" "nb < int kiter"
  have "nb mod 2 ^ 32 \<le> nb" using a(1) by (simp add: zmod_le_nonneg_dividend)
  then show ?thesis using a by (simp add: as_uint_def)
qed

lemma slot_get_put: "slot_get s (slot_put s' v par) = (if s = s' then v else slot_get s par)"
  by (cases s; cases s') simp_all

lemma distinct_slots_of: "distinct (slots_of res_mod)"
  by (simp add: slots_of_def)

lemma length_slots_of: "length (slots_of res_mod) \<le> 4"
  by (simp add: slots_of_def)

lemma setup_par_other:
  "s \<notin> set sl \<Longrightarrow>
   slot_get s (w_par (foldl (setup_slot ext g rf rv off) w (enumerate m sl))) = slot_get s (w_par w)"
  by (induction sl arbitrary: w m) (auto simp: setup_slot_def Let_def slot_get_put)

lemma setup_par_fixed:
  "distinct sl \<Longrightarrow> j < length sl \<Longrightarrow> rf ! (off + (m + j)) = 1 \<Longrightarrow>
   slot_get (sl ! j) (w_par (foldl (setup_slot ext g rf rv off) w (enumerate m sl)))
     = rv ! (off + (m + j))"
proof (induction sl arbitrary: w m j)
  case Nil
  then show ?case by simp
next
  case (Cons s sl)
  show ?case
  proof (cases j)
    case 0
    with Cons.prems show ?thesis
      by (simp add: setup_par_other) (simp add: setup_slot_def Let_def slot_get_put)
  next
    case (Suc j')
    with Cons.prems Cons.IH [of j' "Suc m"] show ?thesis by simp
  qed
qed

lemma setup_par_free:
  "distinct sl \<Longrightarrow> j < length sl \<Longrightarrow> rf ! (off + (m + j)) \<noteq> 1 \<Longrightarrow>
   slot_get (sl ! j) (w_par (foldl (setup_slot ext g rf rv off) w (enumerate m sl)))
     = slot_get (sl ! j) (w_par w)"
proof (induction sl arbitrary: w m j)
  case Nil
  then show ?case by simp
next
  case (Cons s sl)
  show ?case
  proof (cases j)
    case 0
    with Cons.prems show ?thesis
      by (simp add: setup_par_other) (simp add: setup_slot_def Let_def)
  next
    case (Suc j')
    with Cons.prems Cons.IH [of j' "Suc m" "setup_slot ext g rf rv off w (m, s)"] show ?thesis
      by (auto simp: setup_slot_def Let_def slot_get_put)
  qed
qed

lemma setup_fixed_length:
  "length (w_fixedIdx (foldl (setup_slot ext g rf rv off) w (enumerate m sl))) = length (w_fixedIdx w)
 \<and> length (w_fixedValue (foldl (setup_slot ext g rf rv off) w (enumerate m sl))) = length (w_fixedValue w)"
  by (induction sl arbitrary: w m) (auto simp: setup_slot_def Let_def)

lemma setup_fixed_below:
  "k < m \<Longrightarrow>
   w_fixedIdx (foldl (setup_slot ext g rf rv off) w (enumerate m sl)) ! k = w_fixedIdx w ! k
 \<and> w_fixedValue (foldl (setup_slot ext g rf rv off) w (enumerate m sl)) ! k = w_fixedValue w ! k"
  by (induction sl arbitrary: w m) (auto simp: setup_slot_def Let_def)

lemma setup_fixed_mask:
  "j < length sl \<Longrightarrow> rf ! (off + (m + j)) = 1 \<Longrightarrow>
   m + j < length (w_fixedIdx w) \<Longrightarrow> m + j < length (w_fixedValue w) \<Longrightarrow>
   w_fixedIdx (foldl (setup_slot ext g rf rv off) w (enumerate m sl)) ! (m + j) = 1
 \<and> w_fixedValue (foldl (setup_slot ext g rf rv off) w (enumerate m sl)) ! (m + j)
     = to_est ext g (sl ! j) (rv ! (off + (m + j)))"
proof (induction sl arbitrary: w m j)
  case Nil
  then show ?case by simp
next
  case (Cons s sl)
  show ?case
  proof (cases j)
    case 0
    with Cons.prems show ?thesis
      by (simp add: setup_fixed_below) (simp add: setup_slot_def Let_def slot_get_put)
  next
    case (Suc j')
    have "length (w_fixedIdx (setup_slot ext g rf rv off w (m, s))) = length (w_fixedIdx w)"
         "length (w_fixedValue (setup_slot ext g rf rv off w (m, s))) = length (w_fixedValue w)"
      by (simp_all add: setup_slot_def Let_def)
    with Suc Cons.prems Cons.IH [of j' "Suc m" "setup_slot ext g rf rv off w (m, s)"]
    show ?thesis by simp
  qed
qed

lemma setup_start:
  "distinct sl \<Longrightarrow>
   w_curi w + length (filter (\<lambda>ks. rf ! (off + fst ks) \<noteq> 1) (enumerate m sl)) \<le> length (w_start w) \<Longrightarrow>
   w_curi (foldl (setup_slot ext g rf rv off) w (enumerate m sl))
     = w_curi w + length (filter (\<lambda>ks. rf ! (off + fst ks) \<noteq> 1) (enumerate m sl))
 \<and> w_n (foldl (setup_slot ext g rf rv off) w (enumerate m sl))
     = w_n w + length (filter (\<lambda>ks. rf ! (off + fst ks) \<noteq> 1) (enumerate m sl))
 \<and> length (w_start (foldl (setup_slot ext g rf rv off) w (enumerate m sl))) = length (w_start w)
 \<and> take (w_curi (foldl (setup_slot ext g rf rv off) w (enumerate m sl)))
         (w_start (foldl (setup_slot ext g rf rv off) w (enumerate m sl)))
     = take (w_curi w) (w_start w)
       @ map (\<lambda>ks. to_est ext g (snd ks) (slot_get (snd ks) (w_par w)))
           (filter (\<lambda>ks. rf ! (off + fst ks) \<noteq> 1) (enumerate m sl))"
proof (induction sl arbitrary: w m)
  case Nil
  then show ?case by simp
next
  case (Cons s sl)
  let ?free = "\<lambda>ks. rf ! (off + fst ks) \<noteq> 1"
  let ?w1 = "setup_slot ext g rf rv off w (m, s)"
  have snd_in: "snd ks \<in> set sl" if "ks \<in> set (filter ?free (enumerate (Suc m) sl))" for ks
  proof -
    from that have "ks \<in> set (enumerate (Suc m) sl)" by simp
    then have "snd ks \<in> snd ` set (enumerate (Suc m) sl)" by (rule imageI)
    then have "snd ks \<in> set (map snd (enumerate (Suc m) sl))" by (simp only: set_map)
    then show ?thesis by (simp only: map_snd_enumerate)
  qed
  show ?case
  proof (cases "rf ! (off + m) = 1")
    case True
    then have w1: "w_curi ?w1 = w_curi w" "w_n ?w1 = w_n w" "w_start ?w1 = w_start w"
      "w_par ?w1 = slot_put s (rv ! (off + m)) (w_par w)"
      by (simp_all add: setup_slot_def Let_def)
    have same: "map (\<lambda>ks. to_est ext g (snd ks) (slot_get (snd ks) (w_par ?w1)))
                  (filter ?free (enumerate (Suc m) sl))
              = map (\<lambda>ks. to_est ext g (snd ks) (slot_get (snd ks) (w_par w)))
                  (filter ?free (enumerate (Suc m) sl))"
    proof (rule map_cong [OF refl])
      fix ks assume "ks \<in> set (filter ?free (enumerate (Suc m) sl))"
      then have "snd ks \<in> set sl" by (rule snd_in)
      with Cons.prems(1) have "snd ks \<noteq> s" by auto
      then show "to_est ext g (snd ks) (slot_get (snd ks) (w_par ?w1))
               = to_est ext g (snd ks) (slot_get (snd ks) (w_par w))"
        by (simp add: w1 slot_get_put)
    qed
    from Cons.prems True have pre: "distinct sl"
      "w_curi ?w1 + length (filter ?free (enumerate (Suc m) sl)) \<le> length (w_start ?w1)"
      by (simp_all add: w1)
    note ih = Cons.IH [OF pre, unfolded same w1(1,2,3)]
    have unf: "foldl (setup_slot ext g rf rv off) w (enumerate m (s # sl))
             = foldl (setup_slot ext g rf rv off) ?w1 (enumerate (Suc m) sl)"
      "filter ?free (enumerate m (s # sl)) = filter ?free (enumerate (Suc m) sl)"
      using True by simp_all
    show ?thesis
      unfolding unf by (rule ih)
  next
    case False
    then have w1: "w_curi ?w1 = Suc (w_curi w)" "w_n ?w1 = Suc (w_n w)"
      "w_start ?w1 = (w_start w)[w_curi w := to_est ext g s (slot_get s (w_par w))]"
      "w_par ?w1 = w_par w"
      by (simp_all add: setup_slot_def Let_def)
    from Cons.prems False have pre: "distinct sl"
      "w_curi ?w1 + length (filter ?free (enumerate (Suc m) sl)) \<le> length (w_start ?w1)"
      and lt: "w_curi w < length (w_start w)"
      by (simp_all add: w1)
    note ih = Cons.IH [OF pre, unfolded w1]
    have unf: "foldl (setup_slot ext g rf rv off) w (enumerate m (s # sl))
             = foldl (setup_slot ext g rf rv off) ?w1 (enumerate (Suc m) sl)"
      "filter ?free (enumerate m (s # sl)) = (m, s) # filter ?free (enumerate (Suc m) sl)"
      using False by simp_all
    have tk: "take (Suc (w_curi w)) ((w_start w)[w_curi w := to_est ext g s (slot_get s (w_par w))])
            = take (w_curi w) (w_start w) @ [to_est ext g s (slot_get s (w_par w))]"
      using lt by (simp add: take_Suc_conv_app_nth)
    let ?F = "foldl (setup_slot ext g rf rv off) ?w1 (enumerate (Suc m) sl)"
    let ?fr = "(m, s) # filter ?free (enumerate (Suc m) sl)"
    note c1 = ih [THEN conjunct1] and c2 = ih [THEN conjunct2, THEN conjunct1]
      and c3 = ih [THEN conjunct2, THEN conjunct2, THEN conjunct1]
      and c4 = ih [THEN conjunct2, THEN conjunct2, THEN conjunct2]
    have a1: "w_curi ?F = w_curi w + length ?fr" using c1 by simp
    have a2: "w_n ?F = w_n w + length ?fr" using c2 by simp
    have a3: "length (w_start ?F) = length (w_start w)" using c3 by simp
    have a4: "take (w_curi ?F) (w_start ?F) = take (w_curi w) (w_start w)
        @ map (\<lambda>ks. to_est ext g (snd ks) (slot_get (snd ks) (w_par w))) ?fr"
      using c4 tk by simp
    show ?thesis
      unfolding unf by (intro conjI) (rule a1 a2 a3 a4)+
  qed
qed

lemma blend_other:
  "s \<notin> set sl \<Longrightarrow>
   slot_get s (fst (foldl (blend_slot ext g rf off p px) pc (enumerate m sl))) = slot_get s (fst pc)"
  by (induction sl arbitrary: pc m) (auto simp: blend_slot_def slot_get_put)

lemma blend_fixed:
  "distinct sl \<Longrightarrow> j < length sl \<Longrightarrow> rf ! (off + (m + j)) \<noteq> 0 \<Longrightarrow>
   slot_get (sl ! j) (fst (foldl (blend_slot ext g rf off p px) pc (enumerate m sl)))
     = slot_get (sl ! j) (fst pc)"
proof (induction sl arbitrary: pc m j)
  case Nil
  then show ?case by simp
next
  case (Cons s sl)
  show ?case
  proof (cases j)
    case 0
    with Cons.prems show ?thesis
      by (simp add: blend_other) (simp add: blend_slot_def)
  next
    case (Suc j')
    with Cons.prems Cons.IH [of j' "Suc m" "blend_slot ext g rf off p px pc (m, s)"] show ?thesis
      by (auto simp: blend_slot_def slot_get_put)
  qed
qed

lemma fit_endpoint_min:
  assumes "3 \<le> res_mod" "res_mod \<le> 10"
  shows "fit_endpoint ext g kiter nb_fixResid resFixed resValue offsetR p sig2 xmin0 ep res_mod par =
     (let w = fit_setup ext g kiter nb_fixResid resFixed resValue offsetR res_mod par;
          g' = fit_globals g ep res_mod w;
          pxmin = saemOpt ext g' (w_n w) xmin0
      in (if kiter > as_uint nb_fixResid
          then fst (foldl (blend_slot ext g' resFixed offsetR p pxmin) (w_par w, 0)
                      (enumerate 0 (slots_of res_mod)))
          else burnin_blend ext g' res_mod p pxmin (w_par w),
          g', sig2))"
  using assms by (simp add: fit_endpoint_def)

lemma fit_setup_after:
  assumes "as_uint nb_fixResid < kiter"
  shows "fit_setup ext g kiter nb_fixResid resFixed resValue offsetR res_mod par =
      foldl (setup_slot ext g resFixed resValue offsetR)
        \<lparr>w_par = par,
         w_start = map (\<lambda>s. to_est ext g s (slot_get s par)) (slots_of res_mod),
         w_curi = 0, w_n = 0, w_fixedIdx = [0, 0, 0, 0], w_fixedValue = saemFixedValue g\<rparr>
        (enumerate 0 (slots_of res_mod))"
  using assms by (simp add: fit_setup_def)

text \<open>
  Claim C7. For every endpoint and every iteration \<open>kiter\<close> beyond the burn-in count
  \<open>nb_fixResid\<close> (a count, so not negative), a residual parameter whose fixed flag is set
  ends the iteration with its supplied value \<open>resValue\<close>, whatever the minimizer returns.
  In the variants that call the minimizer its entry of the fixed mask is set and holds the
  estimate of the supplied value, and the vector passed to the minimizer (the first \<open>n\<close>
  entries of \<open>start\<close>) consists of the estimates of exactly the parameters that are not
  fixed.
\<close>

theorem fixed_parameters_held:
  assumes "0 \<le> nb_fixResid" and "nb_fixResid < int kiter"
    and "1 \<le> res_mod" and "res_mod \<le> 10"
    and "k < length (slots_of res_mod)"
    and "resFixed ! (offsetR + k) = 1"
    and "length (saemFixedValue g) = 4"
  shows "slot_get (slots_of res_mod ! k)
           (fst (fit_endpoint ext g kiter nb_fixResid resFixed resValue offsetR p sig2 xmin0 ep
                   res_mod par))
         = resValue ! (offsetR + k)
     \<and> (3 \<le> res_mod \<longrightarrow>
          (let w = fit_setup ext g kiter nb_fixResid resFixed resValue offsetR res_mod par;
               g' = fst (snd (fit_endpoint ext g kiter nb_fixResid resFixed resValue offsetR p
                                sig2 xmin0 ep res_mod par));
               free = filter (\<lambda>ks. resFixed ! (offsetR + fst ks) \<noteq> 1)
                        (enumerate 0 (slots_of res_mod))
           in saemFixedIdx g' ! k = 1
            \<and> saemFixedValue g' ! k = to_est ext g (slots_of res_mod ! k) (resValue ! (offsetR + k))
            \<and> w_n w = length free
            \<and> take (w_n w) (saemStart g')
                = map (\<lambda>ks. to_est ext g (snd ks) (slot_get (snd ks) par)) free
            \<and> (k, slots_of res_mod ! k) \<notin> set free))"
proof -
  let ?sl = "slots_of res_mod"
  let ?ini = "\<lparr>w_par = par,
         w_start = map (\<lambda>s. to_est ext g s (slot_get s par)) ?sl,
         w_curi = 0, w_n = 0, w_fixedIdx = [0, 0, 0, 0], w_fixedValue = saemFixedValue g\<rparr>"
  let ?w = "fit_setup ext g kiter nb_fixResid resFixed resValue offsetR res_mod par"
  let ?free = "filter (\<lambda>ks. resFixed ! (offsetR + fst ks) \<noteq> 1) (enumerate 0 ?sl)"
  have after: "as_uint nb_fixResid < kiter" using assms(1,2) by (rule as_uint_lt)
  have w: "?w = foldl (setup_slot ext g resFixed resValue offsetR) ?ini (enumerate 0 ?sl)"
    using after by (rule fit_setup_after)
  have k4: "k < 4" using assms(5) length_slots_of [of res_mod] by simp
  have fx: "resFixed ! (offsetR + (0 + k)) = 1" "resFixed ! (offsetR + (0 + k)) \<noteq> 0"
    using assms(6) by simp_all
  have par_w: "slot_get (?sl ! k) (w_par ?w) = resValue ! (offsetR + k)"
    unfolding w using setup_par_fixed [OF distinct_slots_of assms(5) fx(1)] by simp
  show ?thesis
  proof (cases "3 \<le> res_mod")
    case False
    with assms(3) consider "res_mod = 1" | "res_mod = 2" by linarith
    then have "slot_get (?sl ! k)
           (fst (fit_endpoint ext g kiter nb_fixResid resFixed resValue offsetR p sig2 xmin0 ep
                   res_mod par)) = resValue ! (offsetR + k)"
      using assms(5,6) after by cases (simp_all add: fit_endpoint_def slots_of_def)
    with False show ?thesis by simp
  next
    case True
    note fe = fit_endpoint_min [OF True assms(4)]
    have final: "slot_get (?sl ! k)
           (fst (fit_endpoint ext g kiter nb_fixResid resFixed resValue offsetR p sig2 xmin0 ep
                   res_mod par)) = resValue ! (offsetR + k)"
      using after par_w blend_fixed [OF distinct_slots_of assms(5) fx(2)]
      by (simp add: fe Let_def)
    have g': "fst (snd (fit_endpoint ext g kiter nb_fixResid resFixed resValue offsetR p
                                sig2 xmin0 ep res_mod par)) = fit_globals g ep res_mod ?w"
      by (simp add: fe Let_def)
    have mask: "w_fixedIdx ?w ! k = 1
        \<and> w_fixedValue ?w ! k = to_est ext g (?sl ! k) (resValue ! (offsetR + k))"
      unfolding w using setup_fixed_mask [where w = ?ini and ext = ext and g = g and rv = resValue, OF assms(5) fx(1)] k4 assms(7)
      by simp
    have cnt: "length ?free \<le> length ?sl"
      using length_filter_le [of _ "enumerate 0 ?sl"] by simp
    have pre: "w_curi ?ini + length ?free \<le> length (w_start ?ini)"
      using cnt by simp
    note ss = setup_start [where sl = ?sl and w = ?ini and rf = resFixed and off = offsetR
        and m = 0 and ext = ext and g = g and rv = resValue, OF distinct_slots_of pre]
    have st1: "w_curi ?w = length ?free"
      unfolding w using ss [THEN conjunct1] by simp
    have st2: "w_n ?w = length ?free"
      unfolding w using ss [THEN conjunct2, THEN conjunct1] by simp
    have st3: "take (w_curi ?w) (w_start ?w)
            = map (\<lambda>ks. to_est ext g (snd ks) (slot_get (snd ks) par)) ?free"
      unfolding w using ss [THEN conjunct2, THEN conjunct2, THEN conjunct2] by simp
    have st4: "take (length ?free) (w_start ?w)
            = map (\<lambda>ks. to_est ext g (snd ks) (slot_get (snd ks) par)) ?free"
      using st3 by (simp only: st1)
    have excl: "(k, ?sl ! k) \<notin> set ?free" using assms(6) by simp
    have m1: "saemFixedIdx (fit_globals g ep res_mod ?w) ! k = 1"
      using mask by (simp add: fit_globals_def)
    have m2: "saemFixedValue (fit_globals g ep res_mod ?w) ! k
                = to_est ext g (?sl ! k) (resValue ! (offsetR + k))"
      using mask by (simp add: fit_globals_def)
    have m4: "take (w_n ?w) (saemStart (fit_globals g ep res_mod ?w))
                = map (\<lambda>ks. to_est ext g (snd ks) (slot_get (snd ks) par)) ?free"
      using st4 by (simp only: st2) (simp add: fit_globals_def)
    show ?thesis
      unfolding Let_def g' using final m1 m2 st2 m4 excl by blast
  qed
qed

theorem fixed_parameters_held_witness:
  "ares (fst (fit_endpoint sample_ext sample_globals 1 0 [1, 0] [9, 7] 0 (1 / 2) 1 (\<lambda>i. 0)
            sample_endpoint 4 \<lparr>ares = 1, bres = 4, cres = 0, lres = 0\<rparr>)) = 9
 \<and> saemFixedIdx (fst (snd (fit_endpoint sample_ext sample_globals 1 0 [1, 0] [9, 7] 0 (1 / 2) 1
            (\<lambda>i. 0) sample_endpoint 4 \<lparr>ares = 1, bres = 4, cres = 0, lres = 0\<rparr>))) ! 0 = 1"
  using fixed_parameters_held [where nb_fixResid = 0 and kiter = 1 and res_mod = 4 and k = 0
      and resFixed = "[1, 0]" and offsetR = 0 and g = sample_globals and ext = sample_ext
      and resValue = "[9, 7]" and p = "1 / 2" and ?sig2.0 = 1 and ?xmin0.0 = "\<lambda>i. 0"
      and ep = sample_endpoint and par = "\<lparr>ares = 1, bres = 4, cres = 0, lres = 0\<rparr>"]
  by (simp add: slots_of_def sample_globals_def Let_def)

subsection \<open>The burn-in of the residual-model fit\<close>







subsection \<open>The blend of the minimizer result\<close>

text \<open>
  After the burn-in a parameter whose flag is clear is blended towards the coordinate of
  \<^verbatim>\<open>pxmin\<close> at the number of clear flags before it, mapped back to its natural domain.
\<close>

lemma count_upt_Suc:
  "length (filter P [0..<Suc j]) = (if P 0 then 1 else 0) + length (filter (\<lambda>i. P (Suc i)) [0..<j])"
proof -
  have "[0..<Suc j] = 0 # map Suc [0..<j]"
    by (simp only: upt_conv_Cons [OF zero_less_Suc] map_Suc_upt)
  then show ?thesis by (simp add: filter_map comp_def)
qed

lemma blend_free:
  "distinct sl \<Longrightarrow> j < length sl \<Longrightarrow> rf ! (off + (m + j)) = 0 \<Longrightarrow>
   slot_get (sl ! j) (fst (foldl (blend_slot ext g rf off p px) pc (enumerate m sl)))
     = slot_get (sl ! j) (fst pc)
       + p * (from_est ext g (sl ! j)
                (px (snd pc + length (filter (\<lambda>i. rf ! (off + (m + i)) = 0) [0..<j])))
              - slot_get (sl ! j) (fst pc))"
proof (induction sl arbitrary: pc m j)
  case Nil
  then show ?case by simp
next
  case (Cons s sl)
  show ?case
  proof (cases j)
    case 0
    with Cons.prems show ?thesis
      by (simp add: blend_other) (simp add: blend_slot_def slot_get_put)
  next
    case (Suc j')
    let ?pc1 = "blend_slot ext g rf off p px pc (m, s)"
    from Suc Cons.prems have ne: "sl ! j' \<noteq> s" and d: "distinct sl" and j': "j' < length sl"
      and z: "rf ! (off + (Suc m + j')) = 0" by auto
    have keep: "slot_get (sl ! j') (fst ?pc1) = slot_get (sl ! j') (fst pc)"
      using ne by (simp add: blend_slot_def slot_get_put)
    have idx: "snd ?pc1 = snd pc + (if rf ! (off + m) = 0 then 1 else 0)"
      by (simp add: blend_slot_def)
    have cnt: "length (filter (\<lambda>i. rf ! (off + (m + i)) = 0) [0..<Suc j'])
             = (if rf ! (off + m) = 0 then 1 else 0)
               + length (filter (\<lambda>i. rf ! (off + (Suc m + i)) = 0) [0..<j'])"
      by (simp only: count_upt_Suc) simp
    have "slot_get (sl ! j') (fst (foldl (blend_slot ext g rf off p px) ?pc1 (enumerate (Suc m) sl)))
       = slot_get (sl ! j') (fst ?pc1)
         + p * (from_est ext g (sl ! j')
                  (px (snd ?pc1 + length (filter (\<lambda>i. rf ! (off + (Suc m + i)) = 0) [0..<j'])))
                - slot_get (sl ! j') (fst ?pc1))"
      using d j' z by (rule Cons.IH)
    then show ?thesis
      unfolding Suc keep idx cnt by (simp add: add.assoc)
  qed
qed

lemma free_parameter_blended:
  assumes "0 \<le> nb_fixResid" and "nb_fixResid < int kiter"
    and "3 \<le> res_mod" and "res_mod \<le> 10"
    and "k < length (slots_of res_mod)"
    and "resFixed ! (offsetR + k) = 0"
  shows "(let w = fit_setup ext g kiter nb_fixResid resFixed resValue offsetR res_mod par;
              g' = fst (snd (fit_endpoint ext g kiter nb_fixResid resFixed resValue offsetR p
                               sig2 xmin0 ep res_mod par));
              pxmin = saemOpt ext g' (w_n w) xmin0;
              s = slots_of res_mod ! k;
              c = length (filter (\<lambda>i. resFixed ! (offsetR + i) = 0) [0..<k])
         in slot_get s (fst (fit_endpoint ext g kiter nb_fixResid resFixed resValue offsetR p
                               sig2 xmin0 ep res_mod par))
            = slot_get s par + p * (from_est ext g' s (pxmin c) - slot_get s par))"
proof -
  let ?sl = "slots_of res_mod"
  let ?ini = "\<lparr>w_par = par,
         w_start = map (\<lambda>s. to_est ext g s (slot_get s par)) ?sl,
         w_curi = 0, w_n = 0, w_fixedIdx = [0, 0, 0, 0], w_fixedValue = saemFixedValue g\<rparr>"
  let ?w = "fit_setup ext g kiter nb_fixResid resFixed resValue offsetR res_mod par"
  let ?g' = "fit_globals g ep res_mod ?w"
  let ?px = "saemOpt ext ?g' (w_n ?w) xmin0"
  have after: "as_uint nb_fixResid < kiter" using assms(1,2) by (rule as_uint_lt)
  have w: "?w = foldl (setup_slot ext g resFixed resValue offsetR) ?ini (enumerate 0 ?sl)"
    using after by (rule fit_setup_after)
  have fz: "resFixed ! (offsetR + (0 + k)) = 0" "resFixed ! (offsetR + (0 + k)) \<noteq> 1"
    using assms(6) by simp_all
  have par_w: "slot_get (?sl ! k) (w_par ?w) = slot_get (?sl ! k) par"
    unfolding w using setup_par_free [OF distinct_slots_of assms(5) fz(2)] by simp
  note fe = fit_endpoint_min [OF assms(3,4)]
  have g': "fst (snd (fit_endpoint ext g kiter nb_fixResid resFixed resValue offsetR p
                              sig2 xmin0 ep res_mod par)) = ?g'"
    by (simp add: fe Let_def)
  have res: "fst (fit_endpoint ext g kiter nb_fixResid resFixed resValue offsetR p
                              sig2 xmin0 ep res_mod par)
           = fst (foldl (blend_slot ext ?g' resFixed offsetR p ?px) (w_par ?w, 0)
                    (enumerate 0 ?sl))"
    using after by (simp add: fe Let_def)
  have bl: "slot_get (?sl ! k)
              (fst (foldl (blend_slot ext ?g' resFixed offsetR p ?px) (w_par ?w, 0)
                      (enumerate 0 ?sl)))
          = slot_get (?sl ! k) (w_par ?w)
            + p * (from_est ext ?g' (?sl ! k)
                     (?px (length (filter (\<lambda>i. resFixed ! (offsetR + i) = 0) [0..<k])))
                   - slot_get (?sl ! k) (w_par ?w))"
    using blend_free [OF distinct_slots_of assms(5) fz(1), where pc = "(w_par ?w, 0)"
        and ext = ext and g = ?g' and p = p and px = ?px]
    by simp
  show ?thesis
    unfolding Let_def g' res bl par_w by (rule refl)
qed

text \<open>
  Claim C6, at an input where the code departs from it. Variant \<^verbatim>\<open>rmPow\<close> in iteration
  \<open>0\<close> of a burn-in of \<open>5\<close>, step \<open>1\<close>, \<^verbatim>\<open>bres = 1\<close>, and a minimizer that
  returns the point \<open>(2, 3)\<close>: the claim blends \<^verbatim>\<open>bres\<close> towards the square
  \<open>2 * 2 = 4\<close> of the scale coordinate; the code blends it towards \<open>2 * 3\<close> and
  stores \<open>6\<close>.
\<close>

theorem rmPow_burnin_blend_product:
  "bres (fst (fit_endpoint sample_ext sample_globals 0 5 [0, 0] [0, 0] 0 1 1 (\<lambda>i. 0)
      sample_endpoint 3 \<lparr>ares = 0, bres = 1, cres = 0, lres = 0\<rparr>)) = 6
 \<and> nelder_fn sample_ext sample_globals 2 0 * nelder_fn sample_ext sample_globals 2 0 = 4"
  by (simp add: fit_endpoint_def Let_def slots_of_def burnin_blend_def fit_globals_def
      fit_setup_def as_uint_def saemOpt_def sample_ext_def sample_globals_def fn_of_def)

subsection \<open>The stored residual variance\<close>

lemma store_sigma2_bounded:
  "\<not> dbl_isnan (store_sigma2 v) \<and> dbl_le (store_sigma2 v) (10 ^ 99)"
  by (cases v) (simp_all add: store_sigma2_def dbl_isnan_def dbl_le_def dbl_gt_def Let_def)

lemma store_sigma2_replaces:
  "dbl_isnan v \<or> dbl_gt v (10 ^ 99) \<Longrightarrow> store_sigma2 v = Fin (10 ^ 99)"
  by (cases v) (simp_all add: store_sigma2_def dbl_isnan_def dbl_gt_def Let_def)

lemma store_sigma2_keeps:
  "\<not> dbl_isnan v \<Longrightarrow> \<not> dbl_gt v (10 ^ 99) \<Longrightarrow> store_sigma2 v = v"
  by (cases v) (simp_all add: store_sigma2_def dbl_isnan_def dbl_gt_def Let_def)

text \<open>
  Claim C10. At the end of every iteration, for every endpoint, the stored
  \<^verbatim>\<open>sigma2[b]\<close> is not a NaN and is at most \<^verbatim>\<open>1.0e99\<close>: a NaN or a value above
  \<^verbatim>\<open>1.0e99\<close> computed from \<^verbatim>\<open>statrese[b]\<close> divided by the number of observations of
  the endpoint is replaced by \<^verbatim>\<open>1.0e99\<close>; any other value is stored as it is.
\<close>

theorem sigma2_end_bounded:
  "\<not> dbl_isnan (sigma2_end kiter res_mod nb_fixResid resFixed offsetR statrese_b nobs)
 \<and> dbl_le (sigma2_end kiter res_mod nb_fixResid resFixed offsetR statrese_b nobs) (10 ^ 99)
 \<and> (let v = sig2_after_switch kiter res_mod nb_fixResid resFixed offsetR
               (sig2_of statrese_b nobs)
    in sigma2_end kiter res_mod nb_fixResid resFixed offsetR statrese_b nobs
         = (if dbl_isnan v \<or> dbl_gt v (10 ^ 99) then Fin (10 ^ 99) else v))"
  using store_sigma2_bounded store_sigma2_replaces store_sigma2_keeps
  by (simp add: sigma2_end_def Let_def)

theorem sigma2_end_bounded_witness:
  "sigma2_end 3 2 0 [0] 0 (Fin 0) 0 = Fin (10 ^ 99)"
proof -
  have v: "sig2_after_switch 3 2 0 [0] 0 (sig2_of (Fin 0) 0) = NaN"
    by (simp add: sig2_after_switch_def sig2_of_def dbl_div_count_def)
  from sigma2_end_bounded [of 3 2 0 "[0]" 0 "Fin 0" 0]
  have "sigma2_end 3 2 0 [0] 0 (Fin 0) 0
        = (if dbl_isnan NaN \<or> dbl_gt NaN (10 ^ 99) then Fin (10 ^ 99) else NaN)"
    unfolding Let_def v by (rule conjunct2 [THEN conjunct2])
  then show ?thesis by (simp only: dbl_isnan_def) simp
qed

subsection \<open>The Metropolis-Hastings acceptance step\<close>

lemma fold_update_length: "length (foldl (\<lambda>m x. m[f x := h x]) m xs) = length m"
  by (induction xs arbitrary: m) auto

lemma fold_update_nth:
  "k < length m \<Longrightarrow>
   foldl (\<lambda>m x. m[f x := b ! f x]) m xs ! k = (if k \<in> f ` set xs then b ! k else m ! k)"
proof (induction xs arbitrary: m)
  case Nil
  then show ?case by simp
next
  case (Cons x xs)
  have "k < length (m[f x := b ! f x])" using Cons.prems by simp
  from Cons.IH [OF this] Cons.prems show ?case
    by (auto simp: nth_list_update)
qed

lemma rows_fold:
  "foldl (\<lambda>M r. M\<lparr>mem := (mem M)[r + c * n_rows M := mem B ! (r + c * n_rows B)]\<rparr>) M ind
   = M\<lparr>mem := foldl (\<lambda>m r. m[r + c * n_rows M := mem B ! (r + c * n_rows B)]) (mem M) ind\<rparr>"
  by (induction ind arbitrary: M) simp_all

lemma cols_fold_dims:
  "n_rows (foldl (\<lambda>M c.
       foldl (\<lambda>M r. M\<lparr>mem := (mem M)[r + c * n_rows M := mem B ! (r + c * n_rows B)]\<rparr>) M ind)
     A cols) = n_rows A
 \<and> n_cols (foldl (\<lambda>M c.
       foldl (\<lambda>M r. M\<lparr>mem := (mem M)[r + c * n_rows M := mem B ! (r + c * n_rows B)]\<rparr>) M ind)
     A cols) = n_cols A
 \<and> length (mem (foldl (\<lambda>M c.
       foldl (\<lambda>M r. M\<lparr>mem := (mem M)[r + c * n_rows M := mem B ! (r + c * n_rows B)]\<rparr>) M ind)
     A cols)) = length (mem A)"
  by (induction cols arbitrary: A) (simp_all add: rows_fold fold_update_length)

lemma cols_fold_nth:
  assumes "n_rows B = n_rows A" "k < length (mem A)"
  shows "mem (foldl (\<lambda>M c.
       foldl (\<lambda>M r. M\<lparr>mem := (mem M)[r + c * n_rows M := mem B ! (r + c * n_rows B)]\<rparr>) M ind)
     A cols) ! k
   = (if \<exists>c\<in>set cols. \<exists>r\<in>set ind. k = r + c * n_rows A then mem B ! k else mem A ! k)"
  using assms
proof (induction cols arbitrary: A)
  case Nil
  then show ?case by simp
next
  case (Cons c cols)
  let ?A1 = "A\<lparr>mem := foldl (\<lambda>m r. m[r + c * n_rows A := mem B ! (r + c * n_rows B)]) (mem A) ind\<rparr>"
  have pre: "n_rows B = n_rows ?A1" "k < length (mem ?A1)"
    using Cons.prems by (simp_all add: fold_update_length)
  have one: "mem ?A1 ! k = (if k \<in> (\<lambda>r. r + c * n_rows A) ` set ind then mem B ! k else mem A ! k)"
    using Cons.prems fold_update_nth [of k "mem A" "\<lambda>r. r + c * n_rows A" "mem B" ind]
    by simp
  show ?case
    using Cons.IH [OF pre] one by (auto simp: rows_fold)
qed

lemma linear_index_inj:
  assumes "r < n" "r' < n" "r + c * n = r' + c' * (n::nat)"
  shows "r = r' \<and> c = c'"
proof -
  have "(r + c * n) mod n = r" "(r' + c' * n) mod n = r'" using assms(1,2) by simp_all
  with assms(3) have r: "r = r'" by metis
  have "(r + c * n) div n = c" "(r' + c' * n) div n = c'" using assms(1,2) by simp_all
  with assms(3) have "c = c'" by metis
  with r show ?thesis by simp
qed

lemma deltu_ok:
  assumes "length (U_y st) = n" "length Uc_y = n"
    and "method \<noteq> 1 \<Longrightarrow> length (U_phi st) = n \<and> length Uc_phi = n"
  shows "\<exists>d. (if method = 1 then vec_minus Uc_y (U_y st)
        else bind_err (vec_minus Uc_y (U_y st)) (\<lambda>d1.
             bind_err (vec_plus d1 Uc_phi) (\<lambda>d2. vec_minus d2 (U_phi st)))) = Inr d
      \<and> length d = n \<and> (\<forall>r<n. d ! r = deltu_row method Uc_y Uc_phi st r)"
proof (cases "method = 1")
  case True
  with assms(1,2) show ?thesis
    by (simp add: vec_minus_def deltu_row_def)
next
  case False
  with assms show ?thesis
    by (simp add: vec_minus_def vec_plus_def bind_err_def deltu_row_def)
qed

lemma find_accept_ok:
  assumes "length d = length u"
  shows "find_accept d u = Inr (filter (\<lambda>r. d ! r < - ln (u ! r)) [0..<length d])"
  using assms by (simp add: find_accept_def)

lemma elem_assign_ok:
  assumes "list_all (\<lambda>r. r < n) ind" "length v = n" "length w = n"
  shows "\<exists>v'. elem_assign v ind w = Inr v' \<and> length v' = n
       \<and> (\<forall>r<n. v' ! r = (if r \<in> set ind then w ! r else v ! r))"
proof -
  have ok: "list_all (\<lambda>r. r < length v \<and> r < length w) ind"
    using assms by (simp add: list_all_iff)
  have nth: "\<forall>r<n. foldl (\<lambda>x r. x[r := w ! r]) v ind ! r = (if r \<in> set ind then w ! r else v ! r)"
    using fold_update_nth [of _ v "\<lambda>r. r" w ind] assms(2) by simp
  show ?thesis
    using ok nth assms(2) by (simp add: elem_assign_def fold_update_length)
qed

lemma submat_assign_ok:
  assumes "wf_mat A" "wf_mat B" "same_size A B"
    and "list_all (\<lambda>r. r < n_rows A) ind" "list_all (\<lambda>c. c < n_cols A) cols"
  shows "\<exists>A'. submat_assign A ind cols B = Inr A' \<and> same_size A' A \<and> wf_mat A'
      \<and> (\<forall>r<n_rows A. \<forall>c<n_cols A.
            mat_at A' r c = (if r \<in> set ind \<and> c \<in> set cols then mat_at B r c else mat_at A r c))"
proof -
  let ?A' = "foldl (\<lambda>M c.
       foldl (\<lambda>M r. M\<lparr>mem := (mem M)[r + c * n_rows M := mem B ! (r + c * n_rows B)]\<rparr>) M ind)
     A cols"
  have nB: "n_rows B = n_rows A" "n_cols B = n_cols A"
    using assms(3) by (simp_all add: same_size_def)
  have run: "submat_assign A ind cols B = Inr ?A'"
    using assms(4,5) nB by (simp add: submat_assign_def list_all_iff)
  note dims = cols_fold_dims [of B ind A cols]
  have sz: "same_size ?A' A" "wf_mat ?A'"
    using dims assms(1) by (simp_all add: same_size_def wf_mat_def)
  have ind_lt: "r' < n_rows A" if "r' \<in> set ind" for r'
    using assms(4) that by (simp add: list_all_iff)
  have entry: "mat_at ?A' r c = (if r \<in> set ind \<and> c \<in> set cols then mat_at B r c else mat_at A r c)"
    if rc: "r < n_rows A" "c < n_cols A" for r c
  proof -
    have "r + c * n_rows A < n_rows A + c * n_rows A" using rc(1) by simp
    also have "\<dots> = Suc c * n_rows A" by simp
    also have "\<dots> \<le> n_cols A * n_rows A" using rc(2) by (intro mult_le_mono1) simp
    finally have k: "r + c * n_rows A < length (mem A)"
      using assms(1) by (simp add: wf_mat_def mult.commute)
    have iff: "(\<exists>c'\<in>set cols. \<exists>r'\<in>set ind. r + c * n_rows A = r' + c' * n_rows A)
           \<longleftrightarrow> (r \<in> set ind \<and> c \<in> set cols)"
      using linear_index_inj [OF rc(1)] ind_lt by blast
    show ?thesis
      using cols_fold_nth [OF nB(1) k, of ind cols] dims
      by (simp add: mat_at_def nB iff)
  qed
  from run sz entry show ?thesis by blast
qed

text \<open>
  Claim C3. In every invocation of a Metropolis-Hastings kernel a row (a subject of a
  chain) is accepted if and only if its log-ratio \<^verbatim>\<open>deltu\<close> is strictly below
  \<open>- log U\<close> for the uniform draw \<open>U\<close> of that row. In exactly the accepted rows the
  entries of \<^verbatim>\<open>phiM\<close> in the target columns are replaced by the proposal, every other
  entry of \<^verbatim>\<open>phiM\<close> is unchanged, and the entries of \<^verbatim>\<open>U_y\<close> (and of \<^verbatim>\<open>U_phi\<close>,
  for the kernels 2 and 3) of the accepted rows are replaced by those of the proposal. The
  matrices and vectors have one row per subject and chain, the target columns exist and the
  draws are positive.
\<close>

theorem mh_accept_rows:
  assumes "wf_mat (phiM st)" and "wf_mat phiMc" and "same_size (phiM st) phiMc"
    and "length u = n_rows (phiM st)"
    and "length (U_y st) = n_rows (phiM st)" and "length Uc_y = n_rows (phiM st)"
    and "method \<noteq> 1 \<Longrightarrow> length (U_phi st) = n_rows (phiM st) \<and> length Uc_phi = n_rows (phiM st)"
    and "list_all (\<lambda>c. c < n_cols (phiM st)) i"
    and "list_all (\<lambda>x. 0 < x) u"
  shows "\<exists>st'. mh_accept method i u phiMc Uc_y Uc_phi st = Inr st'
     \<and> same_size (phiM st') (phiM st) \<and> wf_mat (phiM st')
     \<and> (\<forall>r<n_rows (phiM st).
          (\<forall>c<n_cols (phiM st).
             mat_at (phiM st') r c
               = (if deltu_row method Uc_y Uc_phi st r < - ln (u ! r) \<and> c \<in> set i
                  then mat_at phiMc r c else mat_at (phiM st) r c))
        \<and> U_y st' ! r
            = (if deltu_row method Uc_y Uc_phi st r < - ln (u ! r) then Uc_y ! r else U_y st ! r)
        \<and> U_phi st' ! r
            = (if deltu_row method Uc_y Uc_phi st r < - ln (u ! r) \<and> method > 1
               then Uc_phi ! r else U_phi st ! r))
     \<and> (method \<le> 1 \<longrightarrow> U_phi st' = U_phi st)"
proof -
  let ?n = "n_rows (phiM st)"
  let ?acc = "\<lambda>r. deltu_row method Uc_y Uc_phi st r < - ln (u ! r)"
  from deltu_ok [OF assms(5,6,7)] obtain d where
    d: "(if method = 1 then vec_minus Uc_y (U_y st)
        else bind_err (vec_minus Uc_y (U_y st)) (\<lambda>d1.
             bind_err (vec_plus d1 Uc_phi) (\<lambda>d2. vec_minus d2 (U_phi st)))) = Inr d"
    and dlen: "length d = ?n" and dnth: "\<forall>r<?n. d ! r = deltu_row method Uc_y Uc_phi st r"
    by blast
  let ?ind = "filter (\<lambda>r. d ! r < - ln (u ! r)) [0..<length d]"
  have fa: "find_accept d u = Inr ?ind"
    using dlen assms(4) by (simp add: find_accept_ok)
  have ind_set: "r \<in> set ?ind \<longleftrightarrow> r < ?n \<and> ?acc r" for r
    using dlen dnth by auto
  have ind_lt: "list_all (\<lambda>r. r < ?n) ?ind"
    using dlen by (simp add: list_all_iff)
  from submat_assign_ok [OF assms(1,2,3) ind_lt assms(8)] obtain P where
    P: "submat_assign (phiM st) ?ind i phiMc = Inr P" "same_size P (phiM st)" "wf_mat P"
    and Pnth: "\<forall>r<?n. \<forall>c<n_cols (phiM st).
            mat_at P r c = (if r \<in> set ?ind \<and> c \<in> set i then mat_at phiMc r c
                            else mat_at (phiM st) r c)"
    by blast
  from elem_assign_ok [OF ind_lt assms(5,6)] obtain Y where
    Y: "elem_assign (U_y st) ?ind Uc_y = Inr Y"
    and Ynth: "\<forall>r<?n. Y ! r = (if r \<in> set ?ind then Uc_y ! r else U_y st ! r)"
    by blast
  show ?thesis
  proof (cases "method > 1")
    case True
    then have "method \<noteq> 1" by simp
    from assms(7) [OF this] have len: "length (U_phi st) = ?n" "length Uc_phi = ?n" by simp_all
    from elem_assign_ok [OF ind_lt len] obtain F where
      F: "elem_assign (U_phi st) ?ind Uc_phi = Inr F"
      and Fnth: "\<forall>r<?n. F ! r = (if r \<in> set ?ind then Uc_phi ! r else U_phi st ! r)"
      by blast
    have run: "mh_accept method i u phiMc Uc_y Uc_phi st = Inr \<lparr>phiM = P, U_y = Y, U_phi = F\<rparr>"
      using True d fa P(1) Y F by (simp add: mh_accept_def bind_err_def)
    show ?thesis
      apply (rule exI [of _ "\<lparr>phiM = P, U_y = Y, U_phi = F\<rparr>"])
      using run P(2,3) Pnth Ynth Fnth True by (simp add: dlen dnth)
  next
    case False
    have run: "mh_accept method i u phiMc Uc_y Uc_phi st
        = Inr \<lparr>phiM = P, U_y = Y, U_phi = U_phi st\<rparr>"
      using False d fa P(1) Y by (simp add: mh_accept_def bind_err_def)
    show ?thesis
      apply (rule exI [of _ "\<lparr>phiM = P, U_y = Y, U_phi = U_phi st\<rparr>"])
      using run P(2,3) Pnth Ynth False by (simp add: dlen dnth)
  qed
qed

theorem mh_accept_rows_witness:
  "\<exists>st'. mh_accept 2 [0] [exp (- 1), exp (- 1)] sample_phiMc [4, 7] [3, 1] sample_chain = Inr st'
      \<and> mat_at (phiM st') 0 0 = 10 \<and> mat_at (phiM st') 0 1 = 3
      \<and> mat_at (phiM st') 1 0 = 2 \<and> mat_at (phiM st') 1 1 = 4
      \<and> U_y st' = [4, 5] \<and> U_phi st' = [3, 1]"
proof -
  have hyp: "wf_mat (phiM sample_chain)" "wf_mat sample_phiMc"
    "same_size (phiM sample_chain) sample_phiMc"
    "length [exp (- 1), exp (- 1 :: real)] = n_rows (phiM sample_chain)"
    "length (U_y sample_chain) = n_rows (phiM sample_chain)"
    "length [4, 7 :: real] = n_rows (phiM sample_chain)"
    "(2::int) \<noteq> 1 \<Longrightarrow> length (U_phi sample_chain) = n_rows (phiM sample_chain)
        \<and> length [3, 1 :: real] = n_rows (phiM sample_chain)"
    "list_all (\<lambda>c. c < n_cols (phiM sample_chain)) [0]"
    "list_all (\<lambda>x. 0 < x) [exp (- 1), exp (- 1 :: real)]"
    by (simp_all add: sample_chain_def sample_phiMc_def wf_mat_def same_size_def)
  from mh_accept_rows [OF hyp] obtain st' where
    run: "mh_accept 2 [0] [exp (- 1), exp (- 1)] sample_phiMc [4, 7] [3, 1] sample_chain = Inr st'"
    by blast
  have val: "mh_accept 2 [0] [exp (- 1), exp (- 1)] sample_phiMc [4, 7] [3, 1] sample_chain
      = Inr \<lparr>phiM = \<lparr>n_rows = 2, n_cols = 2, mem = [10, 2, 3, 4]\<rparr>, U_y = [4, 5], U_phi = [3, 1]\<rparr>"
    by (simp add: mh_accept_def bind_err_def vec_minus_def vec_plus_def find_accept_def
        submat_assign_def elem_assign_def sample_chain_def sample_phiMc_def upt_rec)
  from run val show ?thesis by (auto simp: mat_at_def)
qed

subsection \<open>The floor of the covariance diagonals\<close>

lemma fold_update_length2: "length (foldl (\<lambda>m x. m[f x := h x]) m xs) = length m"
  by (induction xs arbitrary: m) auto

lemma fold_update_inj:
  "inj_on f (insert y (set xs)) \<Longrightarrow> f y < length m \<Longrightarrow>
   foldl (\<lambda>m x. m[f x := h x]) m xs ! f y = (if y \<in> set xs then h y else m ! f y)"
proof (induction xs arbitrary: m)
  case Nil
  then show ?case by simp
next
  case (Cons x xs)
  have inj: "inj_on f (insert y (set xs))"
    using Cons.prems(1) by (rule inj_on_subset) auto
  have len: "f y < length (m[f x := h x])" using Cons.prems(2) by simp
  have neq: "f x \<noteq> f y" if "x \<noteq> y"
    using Cons.prems(1) that by (auto simp: inj_on_def)
  from Cons.IH [OF inj len] Cons.prems(2) neq show ?case
    by (auto simp: nth_list_update)
qed

lemma fold_update_other:
  "k \<notin> f ` set xs \<Longrightarrow> foldl (\<lambda>m x. m[f x := h x]) m xs ! k = m ! k"
  by (induction xs arbitrary: m) (auto simp: nth_list_update)

lemma diag_fold:
  "foldl (\<lambda>M j. M\<lparr>mem := (mem M)[j + j * n_rows M := v ! j]\<rparr>) M js
   = M\<lparr>mem := foldl (\<lambda>m j. m[j + j * n_rows M := v ! j]) (mem M) js\<rparr>"
  by (induction js arbitrary: M) simp_all

lemma diag_index_lt:
  assumes "j < n" shows "j + j * n < n * (n::nat)"
proof -
  have "j + j * n < n + j * n" using assms by simp
  also have "\<dots> = Suc j * n" by simp
  also have "\<dots> \<le> n * n" using assms by (intro mult_le_mono1) simp
  finally show ?thesis .
qed

lemma diag_index_inj: "inj_on (\<lambda>j. j + j * (n::nat)) A"
proof (rule inj_onI)
  fix x y :: nat
  assume "x + x * n = y + y * n"
  then have "x * Suc n = y * Suc n" by (simp only: mult_Suc_right)
  then have "x = y \<or> Suc n = 0" by (simp only: mult_cancel2)
  then show "x = y" by simp
qed

lemma diag_divmod:
  assumes "j < (n::nat)"
  shows "(j + j * n) mod n = j" and "(j + j * n) div n = j"
  using assms by simp_all

lemma floor_diag_ok:
  assumes "wf_mat G" "n_rows G = n" "n_cols G = n" "length idx = n"
    and "list_all (\<lambda>i. i < length mv) idx"
  shows "\<exists>G'. floor_diag mv idx G = Inr G' \<and> n_rows G' = n \<and> n_cols G' = n \<and> wf_mat G'
      \<and> (\<forall>j<n. mat_at G' j j = max (mat_at G j j) (mv ! (idx ! j)))"
proof -
  let ?Gmin = "map (\<lambda>i. mv ! i) idx"
  let ?jD = "filter (\<lambda>j. diagvec G ! j < ?Gmin ! j) [0..<length (diagvec G)]"
  let ?m = "foldl (\<lambda>m j. m[j + j * n_rows G := ?Gmin ! j]) (mem G) ?jD"
  let ?G' = "G\<lparr>mem := ?m\<rparr>"
  have dlen: "length (diagvec G) = n" using assms(2,3) by (simp add: diagvec_def)
  have run: "floor_diag mv idx G = Inr ?G'"
    using assms(4,5) dlen
    by (simp add: floor_diag_def bind_err_def elem_select_def find_lt_def diag_fold)
  have len: "length (mem G) = n * n" using assms(1,2,3) by (simp add: wf_mat_def)
  have wf: "wf_mat ?G'" using assms(1) by (simp add: wf_mat_def fold_update_length2)
  have entry: "mat_at ?G' j j = max (mat_at G j j) (mv ! (idx ! j))" if j: "j < n" for j
  proof -
    have lt: "j + j * n < length (mem G)" using diag_index_lt [OF j] len by simp
    have dv: "diagvec G ! j = mat_at G j j"
      using j assms(2,3) by (simp add: diagvec_def mat_at_def)
    have gm: "?Gmin ! j = mv ! (idx ! j)" using j assms(4) by simp
    have mem: "j \<in> set ?jD \<longleftrightarrow> mat_at G j j < mv ! (idx ! j)"
      using j dlen dv gm by simp
    have "?m ! (j + j * n) = (if j \<in> set ?jD then ?Gmin ! j else mem G ! (j + j * n))"
      using fold_update_inj [where f = "\<lambda>j. j + j * n" and y = j and xs = ?jD
          and m = "mem G" and h = "\<lambda>j. ?Gmin ! j", OF diag_index_inj lt] assms(2)
      by simp
    then show ?thesis
      using mem gm assms(2) by (simp add: mat_at_def max_def)
  qed
  from run wf entry assms(2,3) show ?thesis by auto
qed

lemma diagmat_vec_diag:
  assumes "j < length v"
  shows "mat_at (diagmat_vec v) j j = v ! j"
proof -
  have "j + j * length v < length v * length v" using assms by (rule diag_index_lt)
  then show ?thesis using assms by (simp add: diagmat_vec_def mat_at_def diag_divmod)
qed

lemma diagmat_diag:
  assumes "wf_mat G" "n_rows G = n" "n_cols G = n" "j < n"
  shows "mat_at (diagmat G) j j = mat_at G j j"
proof (cases "n = 1")
  case True
  with assms show ?thesis
    by (simp add: diagmat_def diagmat_vec_def mat_at_def wf_mat_def)
next
  case False
  have "j + j * n < length (mem G)"
    using diag_index_lt [OF assms(4)] assms(1,2,3) by (simp add: wf_mat_def)
  with False assms show ?thesis
    by (simp add: diagmat_def mat_at_def diag_divmod)
qed

lemma diagmat_dims:
  assumes "wf_mat G" "n_rows G = n" "n_cols G = n"
  shows "wf_mat (diagmat G) \<and> n_rows (diagmat G) = n \<and> n_cols (diagmat G) = n"
  using assms by (auto simp: diagmat_def diagmat_vec_def wf_mat_def)

lemma update_Gamma2_phi1_ok:
  assumes "wf_mat G1" "n_rows G1 = n" "n_cols G1 = n"
    and "wf_mat Gamma2" "n_rows Gamma2 = n" "n_cols Gamma2 = n"
    and "wf_mat (covstruct1 cfg)" "n_rows (covstruct1 cfg) = n" "n_cols (covstruct1 cfg) = n"
    and "length (i1 cfg) = n" "list_all (\<lambda>i. i < length (minv cfg)) (i1 cfg)"
    and "Gamma2_phi1fixed cfg = 1 \<and> as_uint (nb_fixOmega cfg) < kiter \<Longrightarrow>
           length (mem (Gamma2_phi1fixedValues cfg)) = n * n
         \<and> list_all (\<lambda>k. k < n * n) (Gamma2_phi1fixedIx cfg)"
  shows "\<exists>G'. update_Gamma2_phi1 cfg kiter G1 Gamma2 = Inr G' \<and> n_rows G' = n \<and> n_cols G' = n
      \<and> (\<forall>j<n. if Gamma2_phi1fixed cfg = 1 \<and> as_uint (nb_fixOmega cfg) < kiter
                    \<and> j + j * n \<in> set (Gamma2_phi1fixedIx cfg)
                 then mat_at G' j j = mem (Gamma2_phi1fixedValues cfg) ! (j + j * n)
                 else minv cfg ! (i1 cfg ! j) \<le> mat_at G' j j)"
proof -
  let ?ov = "Gamma2_phi1fixed cfg = 1 \<and> as_uint (nb_fixOmega cfg) < kiter"
  let ?FV = "mem (Gamma2_phi1fixedValues cfg)"
  let ?ix = "Gamma2_phi1fixedIx cfg"
  \<comment> \<open>the simulated-annealing step\<close>
  obtain Ga where Ga: "(if kiter \<le> as_uint (nb_sa cfg)
               then mat_max (scalar_times (coef_sa cfg) Gamma2) (diagmat G1)
               else Inr G1) = Inr Ga" "wf_mat Ga" "n_rows Ga = n" "n_cols Ga = n"
  proof (cases "kiter \<le> as_uint (nb_sa cfg)")
    case True
    note dd = diagmat_dims [OF assms(1,2,3)]
    have len: "length (mem (diagmat G1)) = length (mem Gamma2)"
      using dd assms(4,5,6) by (simp add: wf_mat_def)
    show ?thesis
      using True dd assms(4,5,6) len
      by (intro that [of "scalar_times (coef_sa cfg) Gamma2
            \<lparr>mem := map2 max (mem (scalar_times (coef_sa cfg) Gamma2)) (mem (diagmat G1))\<rparr>"])
         (simp_all add: mat_max_def same_size_def scalar_times_def wf_mat_def)
  next
    case False
    with assms(1,2,3) show ?thesis by (intro that [of G1]) simp_all
  qed
  \<comment> \<open>the structural mask\<close>
  let ?Gb = "Ga\<lparr>mem := map2 (*) (mem Ga) (mem (covstruct1 cfg))\<rparr>"
  have Gb: "schur Ga (covstruct1 cfg) = Inr ?Gb" "wf_mat ?Gb" "n_rows ?Gb = n" "n_cols ?Gb = n"
    using Ga(2,3,4) assms(7,8,9) by (simp_all add: schur_def same_size_def wf_mat_def)
  \<comment> \<open>the floor\<close>
  from floor_diag_ok [OF Gb(2,3,4) assms(10,11)] obtain Gc where
    Gc: "floor_diag (minv cfg) (i1 cfg) ?Gb = Inr Gc" "n_rows Gc = n" "n_cols Gc = n" "wf_mat Gc"
    and floor: "\<forall>j<n. mat_at Gc j j = max (mat_at ?Gb j j) (minv cfg ! (i1 cfg ! j))"
    by blast
  have lenc: "length (mem Gc) = n * n" using Gc(2,3,4) by (simp add: wf_mat_def)
  \<comment> \<open>the fixed elements\<close>
  obtain Gd where Gd: "(if Gamma2_phi1fixed cfg = 1 \<and> kiter > as_uint (nb_fixOmega cfg)
               then bind_err (elem_assign (mem Gc) ?ix ?FV) (\<lambda>m. Inr (Gc\<lparr>mem := m\<rparr>))
               else Inr Gc) = Inr Gd" "wf_mat Gd" "n_rows Gd = n" "n_cols Gd = n"
    and fixed: "\<forall>j<n. mat_at Gd j j
                   = (if ?ov \<and> j + j * n \<in> set ?ix then ?FV ! (j + j * n) else mat_at Gc j j)"
  proof (cases ?ov)
    case True
    from assms(12) [OF True] have fv: "length ?FV = n * n" "list_all (\<lambda>k. k < n * n) ?ix"
      by simp_all
    from elem_assign_ok [OF fv(2) lenc fv(1)] obtain m where
      m: "elem_assign (mem Gc) ?ix ?FV = Inr m" "length m = n * n"
      and mnth: "\<forall>k<n * n. m ! k = (if k \<in> set ?ix then ?FV ! k else mem Gc ! k)"
      by blast
    have "\<forall>j<n. mat_at (Gc\<lparr>mem := m\<rparr>) j j
            = (if ?ov \<and> j + j * n \<in> set ?ix then ?FV ! (j + j * n) else mat_at Gc j j)"
      using mnth True diag_index_lt Gc(2) by (simp add: mat_at_def)
    with True m Gc(2,3) show ?thesis
      by (intro that [of "Gc\<lparr>mem := m\<rparr>"]) (simp_all add: bind_err_def wf_mat_def)
  next
    case False
    with Gc show ?thesis by (intro that [of Gc]) auto
  qed
  \<comment> \<open>the diagonal-only constraint\<close>
  let ?G' = "if kiter \<le> as_uint (nb_correl cfg) then diagmat Gd else Gd"
  have run: "update_Gamma2_phi1 cfg kiter G1 Gamma2 = Inr ?G'"
    using Ga(1) Gb(1) Gc(1) Gd(1) by (simp add: update_Gamma2_phi1_def bind_err_def)
  have dims: "n_rows ?G' = n" "n_cols ?G' = n"
    using diagmat_dims [OF Gd(2,3,4)] Gd(3,4) by simp_all
  have diag: "mat_at ?G' j j = mat_at Gd j j" if "j < n" for j
    using diagmat_diag [OF Gd(2,3,4) that] by simp
  have diag_all: "\<forall>j<n. if ?ov \<and> j + j * n \<in> set ?ix
                 then mat_at ?G' j j = ?FV ! (j + j * n)
                 else minv cfg ! (i1 cfg ! j) \<le> mat_at ?G' j j"
  proof (intro allI impI)
    fix j assume j: "j < n"
    note a = diag [OF j]
    have b: "mat_at Gd j j
               = (if ?ov \<and> j + j * n \<in> set ?ix then ?FV ! (j + j * n) else mat_at Gc j j)"
      using fixed j by blast
    have c: "minv cfg ! (i1 cfg ! j) \<le> mat_at Gc j j"
      using floor j by simp
    show "if ?ov \<and> j + j * n \<in> set ?ix
          then mat_at ?G' j j = ?FV ! (j + j * n)
          else minv cfg ! (i1 cfg ! j) \<le> mat_at ?G' j j"
      using c by (simp add: a b)
  qed
  show ?thesis
    apply (rule exI [of _ ?G'])
    apply (intro conjI)
       apply (rule run)
      apply (rule dims(1))
     apply (rule dims(2))
    apply (insert diag_all)
    apply (simp only: conj_assoc)
    done
qed

lemma update_Gamma2_phi0_ok:
  assumes "nphi0 cfg > 0" "kiter \<le> as_uint (niter_phi0 cfg)"
    and "wf_mat G0" "n_rows G0 = m" "n_cols G0 = m"
    and "length (i0 cfg) = m" "list_all (\<lambda>i. i < length (minv cfg)) (i0 cfg)"
  shows "\<exists>Gd. update_Gamma2_phi0 cfg kiter G0 old = Inr Gd
      \<and> (\<forall>j<m. minv cfg ! (i0 cfg ! j) \<le> mat_at (fst Gd) j j)"
proof -
  from floor_diag_ok [OF assms(3,4,5,6,7)] obtain G' where
    G': "floor_diag (minv cfg) (i0 cfg) G0 = Inr G'" "n_rows G' = m" "n_cols G' = m"
    and floor: "\<forall>j<m. mat_at G' j j = max (mat_at G0 j j) (minv cfg ! (i0 cfg ! j))"
    by blast
  have dlen: "length (diagvec G') = m" using G'(2,3) by (simp add: diagvec_def)
  have dnth: "diagvec G' ! j = mat_at G' j j" if "j < m" for j
    using that G'(2,3) by (simp add: diagvec_def mat_at_def)
  have run: "update_Gamma2_phi0 cfg kiter G0 old = Inr (diagmat_vec (diagvec G'), diagvec G')"
    using assms(1,2) G'(1) by (simp add: update_Gamma2_phi0_def bind_err_def)
  have "minv cfg ! (i0 cfg ! j) \<le> mat_at (diagmat_vec (diagvec G')) j j" if j: "j < m" for j
  proof -
    have "mat_at (diagmat_vec (diagvec G')) j j = mat_at G' j j"
      using diagmat_vec_diag [of j "diagvec G'"] dlen dnth [OF j] j by simp
    then show ?thesis using floor j by simp
  qed
  with run show ?thesis by simp
qed

lemma update_Gamma2_phi0_runs:
  assumes "\<not> (nphi0 cfg > 0 \<and> kiter \<le> as_uint (niter_phi0 cfg))"
  shows "\<exists>Gd. update_Gamma2_phi0 cfg kiter G0 old = Inr Gd"
  using assms by (auto simp: update_Gamma2_phi0_def bind_err_def)

text \<open>
  Claim C4, as amended. After the covariance update of an iteration every diagonal entry
  of \<^verbatim>\<open>Gamma2_phi1\<close> is at least the minimum \<^verbatim>\<open>minv\<close> of its dimension, also when the
  structural mask or the diagonal-only constraint is applied, unless the entry is among the
  fixed elements and the fixed elements are applied in this iteration
  (\<^verbatim>\<open>Gamma2_phi1fixed == 1\<close> and \<^verbatim>\<open>kiter > nb_fixOmega\<close>): then the entry is the supplied
  fixed value. While \<^verbatim>\<open>nphi0 > 0\<close> and \<^verbatim>\<open>kiter <= niter_phi0\<close>, every diagonal entry
  of \<^verbatim>\<open>Gamma2_phi0\<close> is at least its minimum. The matrices are square of the size of
  the index vectors and the indices are in range.
\<close>

theorem update_cov_diag_floor:
  assumes "wf_mat G1" and "n_rows G1 = n" and "n_cols G1 = n"
    and "wf_mat (Gamma2_phi1 st)" and "n_rows (Gamma2_phi1 st) = n" and "n_cols (Gamma2_phi1 st) = n"
    and "wf_mat (covstruct1 cfg)" and "n_rows (covstruct1 cfg) = n" and "n_cols (covstruct1 cfg) = n"
    and "length (i1 cfg) = n" and "list_all (\<lambda>i. i < length (minv cfg)) (i1 cfg)"
    and "Gamma2_phi1fixed cfg = 1 \<and> as_uint (nb_fixOmega cfg) < kiter \<Longrightarrow>
           length (mem (Gamma2_phi1fixedValues cfg)) = n * n
         \<and> list_all (\<lambda>k. k < n * n) (Gamma2_phi1fixedIx cfg)"
    and "nphi0 cfg > 0 \<and> kiter \<le> as_uint (niter_phi0 cfg) \<Longrightarrow>
           wf_mat G0 \<and> n_rows G0 = m \<and> n_cols G0 = m \<and> length (i0 cfg) = m
         \<and> list_all (\<lambda>i. i < length (minv cfg)) (i0 cfg)"
  shows "\<exists>st'. update_cov cfg kiter G1 G0 st = Inr st'
      \<and> (\<forall>j<n. if Gamma2_phi1fixed cfg = 1 \<and> as_uint (nb_fixOmega cfg) < kiter
                    \<and> j + j * n \<in> set (Gamma2_phi1fixedIx cfg)
                 then mat_at (Gamma2_phi1 st') j j
                        = mem (Gamma2_phi1fixedValues cfg) ! (j + j * n)
                 else minv cfg ! (i1 cfg ! j) \<le> mat_at (Gamma2_phi1 st') j j)
      \<and> (nphi0 cfg > 0 \<and> kiter \<le> as_uint (niter_phi0 cfg) \<longrightarrow>
            (\<forall>j<m. minv cfg ! (i0 cfg ! j) \<le> mat_at (Gamma2_phi0 st') j j))"
proof -
  from update_Gamma2_phi1_ok [OF assms(1-12)] obtain Ga where
    Ga: "update_Gamma2_phi1 cfg kiter G1 (Gamma2_phi1 st) = Inr Ga"
    and d1: "\<forall>j<n. if Gamma2_phi1fixed cfg = 1 \<and> as_uint (nb_fixOmega cfg) < kiter
                    \<and> j + j * n \<in> set (Gamma2_phi1fixedIx cfg)
                 then mat_at Ga j j = mem (Gamma2_phi1fixedValues cfg) ! (j + j * n)
                 else minv cfg ! (i1 cfg ! j) \<le> mat_at Ga j j"
    by blast
  obtain Gd where Gd: "update_Gamma2_phi0 cfg kiter G0 (Gamma2_phi0 st, dGamma2_phi0 st) = Inr Gd"
    and d0: "nphi0 cfg > 0 \<and> kiter \<le> as_uint (niter_phi0 cfg) \<longrightarrow>
            (\<forall>j<m. minv cfg ! (i0 cfg ! j) \<le> mat_at (fst Gd) j j)"
  proof (cases "nphi0 cfg > 0 \<and> kiter \<le> as_uint (niter_phi0 cfg)")
    case True
    from assms(13) [OF True] have w: "wf_mat G0" "n_rows G0 = m" "n_cols G0 = m"
      "length (i0 cfg) = m" "list_all (\<lambda>i. i < length (minv cfg)) (i0 cfg)" by simp_all
    from True have t: "nphi0 cfg > 0" "kiter \<le> as_uint (niter_phi0 cfg)" by simp_all
    from update_Gamma2_phi0_ok [OF t w] show ?thesis using that by blast
  next
    case False
    from update_Gamma2_phi0_runs [OF False] show ?thesis using that False by blast
  qed
  let ?st' = "\<lparr>Gamma2_phi1 = Ga, Gamma2_phi0 = fst Gd, dGamma2_phi0 = snd Gd\<rparr>"
  have run: "update_cov cfg kiter G1 G0 st = Inr ?st'"
    using Ga Gd by (simp add: update_cov_def bind_err_def)
  have p1: "\<forall>j<n. if Gamma2_phi1fixed cfg = 1 \<and> as_uint (nb_fixOmega cfg) < kiter
                    \<and> j + j * n \<in> set (Gamma2_phi1fixedIx cfg)
                 then mat_at (Gamma2_phi1 ?st') j j
                        = mem (Gamma2_phi1fixedValues cfg) ! (j + j * n)
                 else minv cfg ! (i1 cfg ! j) \<le> mat_at (Gamma2_phi1 ?st') j j"
    using d1 by simp
  have p0: "nphi0 cfg > 0 \<and> kiter \<le> as_uint (niter_phi0 cfg) \<longrightarrow>
            (\<forall>j<m. minv cfg ! (i0 cfg ! j) \<le> mat_at (Gamma2_phi0 ?st') j j)"
    using d0 by simp
  show ?thesis
    apply (rule exI [of _ ?st'])
    apply (intro conjI)
      apply (rule run)
     apply (rule p1)
    apply (rule p0)
    done
qed

text \<open>
  Claim C4 as stated fails where a fixed diagonal element lies below the minimum: one
  dimension with minimum \<open>1\<close> and fixed value \<open>1/2\<close>, iteration \<open>1\<close> after a
  burn-in of \<open>0\<close>. The fixed elements are written after the floor.
\<close>

theorem fixed_diagonal_below_minimum:
  "\<exists>st'. update_cov sample_cov_cfg 1 \<lparr>n_rows = 1, n_cols = 1, mem = [4]\<rparr>
            \<lparr>n_rows = 0, n_cols = 0, mem = []\<rparr> sample_cov = Inr st'
      \<and> mat_at (Gamma2_phi1 st') 0 0 = 1 / 2
      \<and> mat_at (Gamma2_phi1 st') 0 0 < minv sample_cov_cfg ! (i1 sample_cov_cfg ! 0)"
  by (simp add: update_cov_def update_Gamma2_phi1_def update_Gamma2_phi0_def bind_err_def
      sample_cov_cfg_def sample_cov_def as_uint_def schur_def same_size_def floor_diag_def
      elem_select_def find_lt_def diagvec_def elem_assign_def mat_at_def)

theorem update_cov_diag_floor_witness:
  "\<exists>st'. update_cov sample_cov_cfg 0 \<lparr>n_rows = 1, n_cols = 1, mem = [1 / 4]\<rparr>
            \<lparr>n_rows = 0, n_cols = 0, mem = []\<rparr> sample_cov = Inr st'
      \<and> 1 \<le> mat_at (Gamma2_phi1 st') 0 0"
proof -
  let ?G1 = "\<lparr>n_rows = 1, n_cols = 1, mem = [1 / 4]\<rparr>"
  have hyp: "wf_mat ?G1" "n_rows ?G1 = 1" "n_cols ?G1 = 1"
    "wf_mat (Gamma2_phi1 sample_cov)" "n_rows (Gamma2_phi1 sample_cov) = 1"
    "n_cols (Gamma2_phi1 sample_cov) = 1"
    "wf_mat (covstruct1 sample_cov_cfg)" "n_rows (covstruct1 sample_cov_cfg) = 1"
    "n_cols (covstruct1 sample_cov_cfg) = 1"
    "length (i1 sample_cov_cfg) = 1"
    "list_all (\<lambda>i. i < length (minv sample_cov_cfg)) (i1 sample_cov_cfg)"
    by (simp_all add: wf_mat_def sample_cov_def sample_cov_cfg_def)
  have h12: "Gamma2_phi1fixed sample_cov_cfg = 1 \<and> as_uint (nb_fixOmega sample_cov_cfg) < 0 \<Longrightarrow>
           length (mem (Gamma2_phi1fixedValues sample_cov_cfg)) = 1 * 1
         \<and> list_all (\<lambda>k. k < 1 * 1) (Gamma2_phi1fixedIx sample_cov_cfg)"
    by simp
  have h13: "nphi0 sample_cov_cfg > 0 \<and> 0 \<le> as_uint (niter_phi0 sample_cov_cfg) \<Longrightarrow>
           wf_mat \<lparr>n_rows = 0, n_cols = 0, mem = []\<rparr> \<and> n_rows \<lparr>n_rows = 0, n_cols = 0, mem = []\<rparr> = 0
         \<and> n_cols \<lparr>n_rows = 0, n_cols = 0, mem = []\<rparr> = 0 \<and> length (i0 sample_cov_cfg) = 0
         \<and> list_all (\<lambda>i. i < length (minv sample_cov_cfg)) (i0 sample_cov_cfg)"
    by (simp add: sample_cov_cfg_def)
  from update_cov_diag_floor [OF hyp h12 h13] obtain st' where
    run: "update_cov sample_cov_cfg 0 ?G1 \<lparr>n_rows = 0, n_cols = 0, mem = []\<rparr> sample_cov = Inr st'"
    and fl: "\<forall>j<1. if Gamma2_phi1fixed sample_cov_cfg = 1 \<and> as_uint (nb_fixOmega sample_cov_cfg) < 0
                    \<and> j + j * 1 \<in> set (Gamma2_phi1fixedIx sample_cov_cfg)
                 then mat_at (Gamma2_phi1 st') j j
                        = mem (Gamma2_phi1fixedValues sample_cov_cfg) ! (j + j * 1)
                 else minv sample_cov_cfg ! (i1 sample_cov_cfg ! j) \<le> mat_at (Gamma2_phi1 st') j j"
    by blast
  from fl have "minv sample_cov_cfg ! (i1 sample_cov_cfg ! 0) \<le> mat_at (Gamma2_phi1 st') 0 0"
    by simp
  then have "1 \<le> mat_at (Gamma2_phi1 st') 0 0" by (simp add: sample_cov_cfg_def)
  with run show ?thesis by blast
qed

subsection \<open>The objective functions\<close>























subsection \<open>The residual statistic of one chain\<close>




lemma resid_loop_nan:
  assumes "j < i" "powerD_isnan ext (y_cur ! j) (lambda_b ep) (yj_b ep) (low_b ep) (hi_b ep)"
  shows "resid_loop ext res_mod ep y_cur f_cur i resid = Inl NaNInData"
  using assms
proof (induction i arbitrary: resid)
  case 0
  then show ?case by simp
next
  case (Suc i)
  then show ?case by (cases "j = i") (auto simp: Let_def less_Suc_eq)
qed


lemma resk_endpoint_nan:
  assumes "j < length y_cur"
    and "powerD_isnan ext (y_cur ! j) (lambda_b ep) (yj_b ep) (low_b ep) (hi_b ep)"
  shows "resk_endpoint ext res_mod ep y_cur f_cur = Inl NaNInData"
  using resid_loop_nan [OF assms] by (simp add: resk_endpoint_def bind_err_def)




subsection \<open>Unsupported distribution identifier\<close>

lemma iterations_supported:
  "saem_fit sample_iteration None id 1 2 0 = Inr (2221, [])"
  by (simp add: saem_fit_def SAEM_saem_fit_def sample_iteration_def bind_err_def as_uint_def
      numeral_2_eq_2)

lemma no_iterations_returns_output:
  assumes "as_uint niter = 0" and "user_fn_init it s = Inr s0"
  shows "saem_fit it None out distribution niter s = Inr (out s0, [])"
  using assms by (simp add: saem_fit_def SAEM_saem_fit_def bind_err_def)

text \<open>
  Claim C8 (the fit aborts with an error on an unsupported distribution identifier and
  returns no output). The code does otherwise: when the identifier is none of 1, 2, 3
  and at least one iteration is requested, the first iteration runs its head
  (\<open>prepare\<close>), the message of line 828 is printed, the method returns, and the
  exported function returns the output list built from the state reached so far.
  No error is raised.
\<close>

theorem unknown_distribution_returns_output:
  assumes "distribution \<noteq> 1" "distribution \<noteq> 2" "distribution \<noteq> 3"
    and "0 < as_uint niter"
    and "user_fn_init it s = Inr s0"
    and "prepare it 0 s0 = Inr s1"
  shows "saem_fit it None out distribution niter s
           = Inr (out s1, [UnknownDistribution distribution])"
proof -
  from assms(4) obtain r where r: "as_uint niter = Suc r"
    by (cases "as_uint niter") simp_all
  show ?thesis
    using assms(1,2,3,5,6)
    by (simp add: saem_fit_def SAEM_saem_fit_def bind_err_def r)
qed

theorem unknown_distribution_returns_output_witness:
  "saem_fit sample_iteration None id 4 3 0 = Inr (11, [UnknownDistribution 4])"
proof -
  have n: "0 < as_uint 3" by (simp add: as_uint_def)
  have u: "user_fn_init sample_iteration 0 = Inr 1" by (simp add: sample_iteration_def)
  have p: "prepare sample_iteration 0 1 = Inr 11" by (simp add: sample_iteration_def)
  have "saem_fit sample_iteration None id 4 3 0 = Inr (id 11, [UnknownDistribution 4])"
    by (rule unknown_distribution_returns_output[OF _ _ _ n u p]) simp_all
  thus ?thesis by simp
qed

end
